theory Spec2Isabelle
  imports Main "HOL-Library.Char_ord" "HOL-Library.List_Lexorder" "HOL-Library.Product_Lexorder"
    "HOL-Library.Multiset" "HOL-Library.Sublist" "HOL-Library.AList"
begin

section \<open>Strings: what JavaScript and SQLite do with text\<close>

text \<open>
  Text is a \<^typ>\<open>string\<close>: a list of characters, each read as one code point below 256.
  The order on strings is the lexicographic order on character codes, which is how SQLite's
  default BINARY collation compares two TEXT values.

  \<open>String.prototype.trim\<close> removes white space and line terminators from both ends; among
  the code points below 256 these are TAB, LF, VT, FF, CR, SPACE and NO-BREAK SPACE.
\<close>

definition is_js_whitespace :: "char \<Rightarrow> bool" where
  "is_js_whitespace c \<longleftrightarrow>
     c \<in> set [CHR 0x09, CHR 0x0A, CHR 0x0B, CHR 0x0C, CHR 0x0D, CHR 0x20, CHR 0xA0]"

definition trim :: "string \<Rightarrow> string" where
  "trim s = rev (dropWhile is_js_whitespace (rev (dropWhile is_js_whitespace s)))"

text \<open>
  SQLite's built-in \<open>LOWER\<close> and the case folding inside \<open>LIKE\<close> change the 26 ASCII
  capital letters and nothing else. \<open>LOWER\<close> keeps the length of its argument, a NUL
  character and what follows it included.
\<close>

definition ascii_case_pairs :: "(char \<times> char) list" where
  "ascii_case_pairs = zip ''ABCDEFGHIJKLMNOPQRSTUVWXYZ'' ''abcdefghijklmnopqrstuvwxyz''"

definition sqlite_lower_char :: "char \<Rightarrow> char" where
  "sqlite_lower_char c = (case map_of ascii_case_pairs c of Some l \<Rightarrow> l | None \<Rightarrow> c)"

definition LOWER :: "string \<Rightarrow> string" where
  "LOWER s = map sqlite_lower_char s"

text \<open>
  SQLite stores text as UTF-8, in which a code point from 128 to 255 takes two bytes and a
  smaller one takes one. The functions of SQLite that read a text as a C string stop at its
  first NUL character.
\<close>

definition utf8_length :: "string \<Rightarrow> int" where
  "utf8_length s = int (length s) + int (length (filter (\<lambda>c. 128 \<le> (of_char c :: nat)) s))"

definition c_string :: "string \<Rightarrow> string" where
  "c_string s = takeWhile (\<lambda>c. c \<noteq> CHR 0x00) s"

text \<open>
  \<open>patternCompare\<close> is the matcher behind \<open>LIKE\<close> without an ESCAPE clause: in the
  pattern, a percent sign matches any run of characters (also the empty one), an underscore
  matches exactly one character, and every other character matches itself up to ASCII case.

  \<open>like p x\<close> is \<open>x LIKE p\<close> as the SQL function \<open>like(p, x)\<close> computes it: pattern and
  text are read as C strings. The function refuses a pattern of more than
  \<open>SQLITE_MAX_LIKE_PATTERN_LENGTH\<close> bytes, counted over the whole pattern; the statement
  that calls it then fails (see \<open>select_where_like\<close> below).
\<close>

fun patternCompare :: "string \<Rightarrow> string \<Rightarrow> bool" where
  "patternCompare [] s = (s = [])"
| "patternCompare (p # ps) [] = (p = CHR ''%'' \<and> patternCompare ps [])"
| "patternCompare (p # ps) (c # t) =
     (if p = CHR ''%'' then patternCompare ps (c # t) \<or> patternCompare (p # ps) t
      else (p = CHR ''_'' \<or> sqlite_lower_char p = sqlite_lower_char c) \<and> patternCompare ps t)"

definition like :: "string \<Rightarrow> string \<Rightarrow> bool" where
  "like p x = patternCompare (c_string p) (c_string x)"

definition SQLITE_MAX_LIKE_PATTERN_LENGTH :: int where
  "SQLITE_MAX_LIKE_PATTERN_LENGTH = 50000"

definition pattern_too_complex :: "string \<Rightarrow> bool" where
  "pattern_too_complex p \<longleftrightarrow> SQLITE_MAX_LIKE_PATTERN_LENGTH < utf8_length p"

section \<open>The menu table (database.js)\<close>

text \<open>
  A menu item as JavaScript passes it around: the six columns of the table. The \<open>id\<close> is
  optional, since the remote payload may leave it out; a row read from the table always has
  one. The price is carried and never computed with, so its type is a parameter.
\<close>

record 'p MenuItem =
  item_id :: "int option"
  name :: string
  price :: 'p
  description :: string
  item_image :: string
  category :: string

text \<open>
  The database \<open>little_lemon\<close>: the table \<open>menuitems\<close>, absent until it is created, with its
  rows in ascending \<open>id\<close> order (the order a scan of an INTEGER PRIMARY KEY table returns),
  and the AUTOINCREMENT counter that SQLite keeps in \<open>sqlite_sequence\<close>: the largest
  \<open>id\<close> the table ever held. A row id is a signed 64-bit integer.
\<close>

record 'p Database =
  menuitems :: "'p MenuItem list option"
  sqlite_sequence :: int

definition is_rowid :: "int \<Rightarrow> bool" where
  "is_rowid k \<longleftrightarrow> - 9223372036854775808 \<le> k \<and> k \<le> 9223372036854775807"

datatype js_error = Error string

text \<open>
  A native call either proceeds or throws because of the storage underneath; a fault is the
  message of the error it throws, \<open>None\<close> when it proceeds.
\<close>

type_synonym fault = "string option"

text \<open>\<open>catch (error) { throw new Error(pre + error.message) }\<close>\<close>

definition rethrow :: "string \<Rightarrow> js_error + 'a \<Rightarrow> js_error + 'a" where
  "rethrow pre r = (case r of Inl (Error msg) \<Rightarrow> Inl (Error (pre @ msg)) | Inr v \<Rightarrow> Inr v)"

subsection \<open>createTable\<close>

definition create_table_if_not_exists :: "'p Database \<Rightarrow> 'p Database" where
  "create_table_if_not_exists db =
     (case menuitems db of None \<Rightarrow> db\<lparr>menuitems := Some []\<rparr> | Some rows \<Rightarrow> db)"

definition execAsync_create :: "fault \<Rightarrow> 'p Database \<Rightarrow> (js_error + unit) \<times> 'p Database" where
  "execAsync_create flt db =
     (case flt of
        Some msg \<Rightarrow> (Inl (Error msg), db)
      | None \<Rightarrow> (Inr (), create_table_if_not_exists db))"

definition createTable :: "fault \<Rightarrow> 'p Database \<Rightarrow> (js_error + unit) \<times> 'p Database" where
  "createTable flt db =
     (case execAsync_create flt db of
        (r, db') \<Rightarrow> (rethrow ''Failed to create table: '' r, db'))"

subsection \<open>The SELECT statements\<close>

text \<open>
  \<open>getAllAsync\<close> runs one SELECT over the table. The statements of database.js are the
  functions below, from the rows in table order to the rows returned, or to the error that
  SQLite raises while it evaluates the statement: WHERE filters, then ORDER BY sorts (ties
  stay in table order).
\<close>

definition getAllAsync ::
  "fault \<Rightarrow> 'p Database \<Rightarrow> ('p MenuItem list \<Rightarrow> js_error + 'p MenuItem list)
     \<Rightarrow> js_error + 'p MenuItem list" where
  "getAllAsync flt db statement =
     (case flt of
        Some msg \<Rightarrow> Inl (Error msg)
      | None \<Rightarrow>
          (case menuitems db of
             None \<Rightarrow> Inl (Error ''no such table: menuitems'')
           | Some rows \<Rightarrow> statement rows))"

text \<open>\<open>SELECT * FROM menuitems\<close>\<close>

definition select_all :: "'p MenuItem list \<Rightarrow> js_error + 'p MenuItem list" where
  "select_all rows = Inr rows"

text \<open>\<open>SELECT * FROM menuitems ORDER BY category, name\<close>\<close>

definition select_order_by_category_name ::
  "'p MenuItem list \<Rightarrow> js_error + 'p MenuItem list" where
  "select_order_by_category_name rows = Inr (sort_key (\<lambda>r. (category r, name r)) rows)"

text \<open>
  \<open>SELECT * FROM menuitems WHERE LOWER(category) = LOWER(?) ORDER BY name\<close>. The
  equality compares the two texts over their whole length.
\<close>

definition select_where_category ::
  "string \<Rightarrow> 'p MenuItem list \<Rightarrow> js_error + 'p MenuItem list" where
  "select_where_category c rows =
     Inr (sort_key name (filter (\<lambda>r. LOWER (category r) = LOWER c) rows))"

text \<open>
  \<open>SELECT * FROM menuitems WHERE LOWER(name) LIKE LOWER(?) OR LOWER(description) LIKE LOWER(?)
  ORDER BY category, name\<close>, both parameters bound to the same pattern, with its whole
  length. The WHERE clause is evaluated for each row, so a pattern that is too long makes the
  statement fail as soon as the table has a row.
\<close>

definition select_where_like :: "string \<Rightarrow> 'p MenuItem list \<Rightarrow> js_error + 'p MenuItem list" where
  "select_where_like pat rows =
     (if rows \<noteq> [] \<and> pattern_too_complex (LOWER pat)
      then Inl (Error ''LIKE or GLOB pattern too complex'')
      else Inr (sort_key (\<lambda>r. (category r, name r))
             (filter (\<lambda>r. like (LOWER pat) (LOWER (name r)) \<or>
                           like (LOWER pat) (LOWER (description r)))
                rows)))"

subsection \<open>getMenuItems, filterByCategory, searchMenuItems\<close>

definition getMenuItems :: "fault \<Rightarrow> 'p Database \<Rightarrow> js_error + 'p MenuItem list" where
  "getMenuItems flt db = rethrow ''Failed to get menu items: '' (getAllAsync flt db select_all)"

definition filterByCategory :: "fault \<Rightarrow> string \<Rightarrow> 'p Database \<Rightarrow> js_error + 'p MenuItem list" where
  "filterByCategory flt c db =
     rethrow ''Failed to filter by category: ''
       (if c = ''all'' then getAllAsync flt db select_order_by_category_name
        else getAllAsync flt db (select_where_category c))"

definition searchMenuItems :: "fault \<Rightarrow> string \<Rightarrow> 'p Database \<Rightarrow> js_error + 'p MenuItem list" where
  "searchMenuItems flt query db =
     rethrow ''Failed to search menu items: ''
       (if query = [] \<or> trim query = [] then getAllAsync flt db select_order_by_category_name
        else
          let searchTerm = ''%'' @ trim query @ ''%''
          in getAllAsync flt db (select_where_like searchTerm))"

subsection \<open>saveMenuItems\<close>

text \<open>
  \<open>DELETE FROM menuitems\<close> empties the table and leaves the AUTOINCREMENT counter alone.
\<close>

definition runAsync_delete :: "fault \<Rightarrow> 'p Database \<Rightarrow> js_error + 'p Database" where
  "runAsync_delete flt db =
     (case flt of
        Some msg \<Rightarrow> Inl (Error msg)
      | None \<Rightarrow>
          (case menuitems db of
             None \<Rightarrow> Inl (Error ''no such table: menuitems'')
           | Some rows \<Rightarrow> Inr (db\<lparr>menuitems := Some []\<rparr>)))"

definition rowid :: "'p MenuItem \<Rightarrow> int" where
  "rowid r = (case item_id r of Some k \<Rightarrow> k | None \<Rightarrow> 0)"

text \<open>
  \<open>INSERT INTO menuitems (id, name, price, description, image, category) VALUES (?, ...)\<close>.
  A supplied \<open>id\<close> is kept; it is refused when it is not a signed 64-bit integer (the
  column is an INTEGER PRIMARY KEY) and when a row already has it. Without one
  (\<open>undefined\<close> binds as NULL) AUTOINCREMENT gives the row one more than the largest \<open>id\<close>
  the table ever held, and refuses the row when that \<open>id\<close> was the largest there is.
\<close>

definition runAsync_insert :: "fault \<Rightarrow> 'p MenuItem \<Rightarrow> 'p Database \<Rightarrow> js_error + 'p Database" where
  "runAsync_insert flt item db =
     (case flt of
        Some msg \<Rightarrow> Inl (Error msg)
      | None \<Rightarrow>
          (case menuitems db of
             None \<Rightarrow> Inl (Error ''no such table: menuitems'')
           | Some rows \<Rightarrow>
               (case item_id item of
                  Some k \<Rightarrow>
                    if \<not> is_rowid k then Inl (Error ''datatype mismatch'')
                    else if k \<in> set (map rowid rows)
                    then Inl (Error ''UNIQUE constraint failed: menuitems.id'')
                    else Inr (db\<lparr>menuitems := Some (insort_key rowid item rows),
                                 sqlite_sequence := max (sqlite_sequence db) k\<rparr>)
                | None \<Rightarrow>
                    let largest = fold max (map rowid rows) (sqlite_sequence db)
                    in if 9223372036854775807 \<le> largest
                       then Inl (Error ''database or disk is full'')
                       else Inr (db\<lparr>menuitems :=
                                     Some (insort_key rowid (item\<lparr>item_id := Some (largest + 1)\<rparr>) rows),
                                   sqlite_sequence := largest + 1\<rparr>))))"

text \<open>
  The faults that the statements of one call of \<open>saveMenuItems\<close> meet: BEGIN, DELETE, the
  INSERT of the \<open>i\<close>-th item (counted from 0), COMMIT.
\<close>

record Faults =
  at_begin :: fault
  at_delete :: fault
  at_insert :: "nat \<Rightarrow> fault"
  at_commit :: fault

definition no_fault :: Faults where
  "no_fault = \<lparr>at_begin = None, at_delete = None, at_insert = (\<lambda>i. None), at_commit = None\<rparr>"

text \<open>
  The argument of \<open>saveMenuItems\<close> is whatever the caller passes: an array of items, or a
  value that \<open>for ... of\<close> cannot iterate (\<open>true\<close>, a number, an object that is not an
  array), on which the loop throws a TypeError; the wording of its message is the engine's.
\<close>

datatype 'p menu = Items "'p MenuItem list" | Not_iterable

definition TypeError_not_iterable :: js_error where
  "TypeError_not_iterable = Error ''menuItems is not iterable''"

text \<open>\<open>insert_items\<close> is the loop over an array, from the item of index \<open>n\<close> on.\<close>

fun insert_items ::
  "Faults \<Rightarrow> nat \<Rightarrow> 'p MenuItem list \<Rightarrow> 'p Database \<Rightarrow> js_error + 'p Database" where
  "insert_items io n [] db = Inr db"
| "insert_items io n (item # rest) db =
     (case runAsync_insert (at_insert io n) item db of
        Inl e \<Rightarrow> Inl e
      | Inr db' \<Rightarrow> insert_items io (Suc n) rest db')"

text \<open>\<open>for (const item of menuItems) { await db.runAsync(INSERT ...) }\<close>\<close>

definition for_of_insert :: "Faults \<Rightarrow> 'p menu \<Rightarrow> 'p Database \<Rightarrow> js_error + 'p Database" where
  "for_of_insert io menuItems db =
     (case menuItems of
        Items items \<Rightarrow> insert_items io 0 items db
      | Not_iterable \<Rightarrow> Inl TypeError_not_iterable)"

text \<open>
  \<open>withTransactionAsync(task)\<close> of expo-sqlite:
  \<open>try { BEGIN; await task(); COMMIT } catch (e) { ROLLBACK; throw e }\<close>.
  SQLite's rollback restores the database as it was at BEGIN, and the error of the task or
  of COMMIT is thrown again. When BEGIN itself throws there is no transaction to roll back:
  the ROLLBACK in the \<open>catch\<close> throws, and it is that error which leaves the function.
\<close>

definition withTransactionAsync ::
  "fault \<Rightarrow> fault \<Rightarrow> ('p Database \<Rightarrow> js_error + 'p Database) \<Rightarrow> 'p Database
     \<Rightarrow> (js_error + unit) \<times> 'p Database" where
  "withTransactionAsync begin_fault commit_fault task db =
     (case begin_fault of
        Some msg \<Rightarrow> (Inl (Error ''cannot rollback - no transaction is active''), db)
      | None \<Rightarrow>
          (case task db of
             Inl e \<Rightarrow> (Inl e, db)
           | Inr db' \<Rightarrow>
               (case commit_fault of
                  Some msg \<Rightarrow> (Inl (Error msg), db)
                | None \<Rightarrow> (Inr (), db'))))"

definition saveMenuItems ::
  "Faults \<Rightarrow> 'p menu \<Rightarrow> 'p Database \<Rightarrow> (js_error + unit) \<times> 'p Database" where
  "saveMenuItems io menuItems db =
     (case withTransactionAsync (at_begin io) (at_commit io)
             (\<lambda>d. case runAsync_delete (at_delete io) d of
                     Inl e \<Rightarrow> Inl e
                   | Inr d' \<Rightarrow> for_of_insert io menuItems d')
             db of
        (r, db') \<Rightarrow> (rethrow ''Failed to save menu items: '' r, db'))"

subsection \<open>A reader while saveMenuItems is running\<close>

text \<open>
  \<open>withTransactionAsync\<close> is not exclusive: database.js has one connection, \<open>db\<close>, and
  each \<open>await\<close> in \<open>saveMenuItems\<close> lets other tasks run. A statement that another task
  sends to \<open>db\<close> meanwhile runs inside the open transaction, on what the transaction has
  written so far (the documentation of expo-sqlite says so of \<open>withTransactionAsync\<close>, and
  offers \<open>withExclusiveTransactionAsync\<close> against it).

  \<open>during_save k menuItems db\<close> is the table as the connection has it when, no statement
  failing, the DELETE and the first \<open>k\<close> INSERTs of \<open>saveMenuItems(menuItems)\<close> have run,
  and \<open>getMenuItems_during\<close> is what \<open>getMenuItems\<close> returns when its SELECT runs at that
  moment.
\<close>

definition during_save ::
  "nat \<Rightarrow> 'p MenuItem list \<Rightarrow> 'p Database \<Rightarrow> js_error + 'p Database" where
  "during_save k menuItems db =
     (case runAsync_delete None db of
        Inl e \<Rightarrow> Inl e
      | Inr d \<Rightarrow> insert_items no_fault 0 (take k menuItems) d)"

definition getMenuItems_during ::
  "nat \<Rightarrow> 'p MenuItem list \<Rightarrow> 'p Database \<Rightarrow> js_error + 'p MenuItem list" where
  "getMenuItems_during k menuItems db =
     (case during_save k menuItems db of
        Inl e \<Rightarrow> Inl e
      | Inr d \<Rightarrow> getMenuItems None d)"

section \<open>The home screen (screens/Home.js)\<close>

subsection \<open>Grouping menu items into sections\<close>

record 'p Section =
  title :: string
  data :: "'p MenuItem list"

text \<open>
  The object \<open>grouped\<close> starts as \<open>{}\<close>. Its own properties are kept in the order they
  were created, each holding an array of items. Reading \<open>grouped[k]\<close> finds an own property,
  else a property that every object inherits from \<open>Object.prototype\<close>, else \<open>undefined\<close>.
\<close>

type_synonym 'p grouped = "(string \<times> 'p MenuItem list) list"

datatype 'p js_value = Undefined | Inherited | Array "'p MenuItem list"

definition Object_prototype_keys :: "string list" where
  "Object_prototype_keys =
     [''constructor'', ''__proto__'', ''hasOwnProperty'', ''isPrototypeOf'',
      ''propertyIsEnumerable'', ''toLocaleString'', ''toString'', ''valueOf'',
      ''__defineGetter__'', ''__defineSetter__'', ''__lookupGetter__'', ''__lookupSetter__'']"

definition get_property :: "'p grouped \<Rightarrow> string \<Rightarrow> 'p js_value" where
  "get_property grouped k =
     (case map_of grouped k of
        Some arr \<Rightarrow> Array arr
      | None \<Rightarrow> if k \<in> set Object_prototype_keys then Inherited else Undefined)"

text \<open>
  Calling \<open>push\<close> on an inherited property, a function or \<open>Object.prototype\<close> itself,
  throws a TypeError; the wording of its message is the engine's.
\<close>

definition TypeError_push :: js_error where
  "TypeError_push = Error ''undefined is not a function''"

text \<open>
  One turn of the \<open>forEach\<close>:
  \<open>if (!grouped[item.category]) grouped[item.category] = []; grouped[item.category].push(item)\<close>.
  Only \<open>undefined\<close> is falsy among the values \<open>grouped[k]\<close> can have.
\<close>

definition group_item :: "'p MenuItem \<Rightarrow> 'p grouped \<Rightarrow> js_error + 'p grouped" where
  "group_item item grouped =
     (let k = category item;
          g = (case get_property grouped k of
                 Undefined \<Rightarrow> grouped @ [(k, [])]
               | Inherited \<Rightarrow> grouped
               | Array arr \<Rightarrow> grouped)
      in case get_property g k of
           Array arr \<Rightarrow> Inr (AList.update k (arr @ [item]) g)
         | Inherited \<Rightarrow> Inl TypeError_push
         | Undefined \<Rightarrow> Inl TypeError_push)"

fun forEach_group :: "'p MenuItem list \<Rightarrow> 'p grouped \<Rightarrow> js_error + 'p grouped" where
  "forEach_group [] grouped = Inr grouped"
| "forEach_group (item # rest) grouped =
     (case group_item item grouped of
        Inl e \<Rightarrow> Inl e
      | Inr g \<Rightarrow> forEach_group rest g)"

text \<open>
  \<open>Object.keys\<close> lists the own keys that are array indices first, in ascending numeric
  order, then the other keys in the order they were created. An array index is the decimal
  form, without leading zeros, of an integer from 0 to \<open>2\<^sup>3\<^sup>2 - 2\<close>.
\<close>

definition is_digit :: "char \<Rightarrow> bool" where
  "is_digit c \<longleftrightarrow> c \<in> set ''0123456789''"

definition digit_value :: "char \<Rightarrow> int" where
  "digit_value c = of_char c - 48"

definition numeric_value :: "string \<Rightarrow> int" where
  "numeric_value s = foldl (\<lambda>n c. 10 * n + digit_value c) 0 s"

definition is_array_index :: "string \<Rightarrow> bool" where
  "is_array_index k \<longleftrightarrow>
     (case k of
        [] \<Rightarrow> False
      | c # cs \<Rightarrow>
          list_all is_digit k \<and> (cs = [] \<or> c \<noteq> CHR ''0'') \<and> numeric_value k \<le> 4294967294)"

definition Object_keys :: "'p grouped \<Rightarrow> string list" where
  "Object_keys grouped =
     (let ks = map fst grouped
      in sort_key numeric_value (filter is_array_index ks) @
         filter (\<lambda>k. \<not> is_array_index k) ks)"

text \<open>
  The block that Home.js has twice, in \<open>loadMenuByCategory\<close> and in the search effect:
  an empty result gives no section; otherwise the items are grouped and every key becomes
  \<open>{ title: category, data: grouped[category] }\<close>. (Every key that \<open>Object.keys\<close> lists
  is an own property, so \<open>grouped[category]\<close> is its array.)
\<close>

definition to_sections :: "'p MenuItem list \<Rightarrow> js_error + 'p Section list" where
  "to_sections menuItems =
     (if menuItems \<noteq> [] then
        (case forEach_group menuItems [] of
           Inl e \<Rightarrow> Inl e
         | Inr grouped \<Rightarrow>
             Inr (map (\<lambda>c. \<lparr>title = c,
                              data = (case get_property grouped c of
                                        Array arr \<Rightarrow> arr
                                      | Inherited \<Rightarrow> []
                                      | Undefined \<Rightarrow> [])\<rparr>)
                    (Object_keys grouped)))
      else Inr [])"

subsection \<open>The component's state and the calls it makes\<close>

record 'p HomeState =
  sections :: "'p Section list"
  loading :: bool
  error :: "string option"
  selectedCategory :: string
  isInitialized :: bool
  searchQuery :: string
  debouncedSearchQuery :: string

definition initial_state :: "'p HomeState" where
  "initial_state =
     \<lparr>sections = [], loading = True, error = None, selectedCategory = ''all'',
      isInitialized = False, searchQuery = [], debouncedSearchQuery = []\<rparr>"

text \<open>
  Outside the component there is the database and the remote source. Every call to either
  is logged, oldest first, so that what was called, and in which order, can be stated.
\<close>

datatype call =
  CreateTable | GetMenuItems | FetchMenu | SaveMenuItems
  | FilterByCategory string | SearchMenuItems string

record 'p World =
  database :: "'p Database"
  calls :: "call list"

definition logged :: "call \<Rightarrow> 'p World \<Rightarrow> 'p World" where
  "logged c w = w\<lparr>calls := calls w @ [c]\<rparr>"

text \<open>\<open>err.message || fallback\<close>\<close>

definition message_or :: "js_error \<Rightarrow> string \<Rightarrow> string" where
  "message_or e fallback = (case e of Error msg \<Rightarrow> if msg = [] then fallback else msg)"

subsection \<open>loadMenuByCategory\<close>

text \<open>
  \<open>existingMenuItems\<close> is \<open>null\<close> by default (\<open>None\<close>); an array, even an empty one, is
  truthy and is used in place of a query.
\<close>

definition loadMenuByCategory ::
  "fault \<Rightarrow> string \<Rightarrow> 'p MenuItem list option \<Rightarrow> 'p HomeState \<times> 'p World
     \<Rightarrow> 'p HomeState \<times> 'p World" where
  "loadMenuByCategory flt cat existingMenuItems sw =
     (case sw of (st, w) \<Rightarrow>
        let st1 = st\<lparr>loading := True\<rparr>;
            (fetched, w1) =
              (case existingMenuItems of
                 Some items \<Rightarrow> (Inr items, w)
               | None \<Rightarrow> (filterByCategory flt cat (database w), logged (FilterByCategory cat) w));
            st2 =
              (case (case fetched of Inl e \<Rightarrow> Inl e | Inr menuItems \<Rightarrow> to_sections menuItems) of
                 Inr sectionData \<Rightarrow> st1\<lparr>sections := sectionData\<rparr>
               | Inl err \<Rightarrow> st1\<lparr>error := Some (message_or err ''Error loading menu'')\<rparr>)
        in (st2\<lparr>loading := False\<rparr>, w1))"

subsection \<open>initializeApp\<close>

text \<open>
  What the remote source answers, as far as \<open>initializeApp\<close> looks at it. \<open>Null\<close> is a
  falsy JSON value. \<open>Without_menu\<close> is a truthy value whose \<open>menu\<close> is missing or falsy
  (\<open>null\<close>, \<open>false\<close>, \<open>0\<close>, the empty string). \<open>With_menu\<close> is an object whose
  \<open>menu\<close> is truthy: an array of items, which may be empty, or a value that cannot be
  iterated (\<open>true\<close>, a number other than 0, an object that is not an array). Two kinds of
  \<open>menu\<close> are not modelled: a string that is not empty, and an array with an element that
  is not an item.
\<close>

datatype 'p payload = Null | Without_menu | With_menu "'p menu"

text \<open>
  The surroundings of one activation: the fault of each database call, and what the fetch
  does, throw or answer.
\<close>

record 'p Remote =
  create_fault :: fault
  read_fault :: fault
  fetch_result :: "js_error + 'p payload"
  save_faults :: Faults

definition fetchMenuFromAPI ::
  "js_error + 'p payload \<Rightarrow> 'p World \<Rightarrow> (js_error + 'p payload) \<times> 'p World" where
  "fetchMenuFromAPI response w = (response, logged FetchMenu w)"

text \<open>
  The branch taken when the database is empty:
  \<open>if (apiData && apiData.menu) { await saveMenuItems(apiData.menu); menuItems = apiData.menu }\<close>.
  It returns the new value of \<open>menuItems\<close>: the payload's \<open>menu\<close> after a save, else the
  empty array that was read. (After a save that returned, \<open>menu\<close> was iterated, so it is
  an array.)
\<close>

definition fetch_and_save ::
  "'p Remote \<Rightarrow> 'p World \<Rightarrow> (js_error + 'p MenuItem list) \<times> 'p World" where
  "fetch_and_save env w =
     (case fetchMenuFromAPI (fetch_result env) w of
        (Inl e, w1) \<Rightarrow> (Inl e, w1)
      | (Inr apiData, w1) \<Rightarrow>
          (case apiData of
             With_menu menu \<Rightarrow>
               (case saveMenuItems (save_faults env) menu (database w1) of
                  (Inl e, db') \<Rightarrow> (Inl e, logged SaveMenuItems (w1\<lparr>database := db'\<rparr>))
                | (Inr u, db') \<Rightarrow>
                    (Inr (case menu of Items items \<Rightarrow> items | Not_iterable \<Rightarrow> []),
                     logged SaveMenuItems (w1\<lparr>database := db'\<rparr>)))
           | Without_menu \<Rightarrow> (Inr [], w1)
           | Null \<Rightarrow> (Inr [], w1)))"

text \<open>The body of the \<open>try\<close>.\<close>

definition initializeApp_try ::
  "'p Remote \<Rightarrow> 'p HomeState \<times> 'p World \<Rightarrow> (js_error + unit) \<times> 'p HomeState \<times> 'p World" where
  "initializeApp_try env sw =
     (case sw of (st, w) \<Rightarrow>
        (case createTable (create_fault env) (database w) of
           (Inl e, db1) \<Rightarrow> (Inl e, st, logged CreateTable (w\<lparr>database := db1\<rparr>))
         | (Inr u, db1) \<Rightarrow>
             let w1 = logged GetMenuItems (logged CreateTable (w\<lparr>database := db1\<rparr>))
             in (case getMenuItems (read_fault env) db1 of
                   Inl e \<Rightarrow> (Inl e, st, w1)
                 | Inr fromDB \<Rightarrow>
                     (case (if fromDB = [] then fetch_and_save env w1 else (Inr fromDB, w1)) of
                        (Inl e, w2) \<Rightarrow> (Inl e, st, w2)
                      | (Inr menuItems, w2) \<Rightarrow>
                          (case loadMenuByCategory None ''all'' (Some menuItems) (st, w2) of
                             (st', w3) \<Rightarrow> (Inr (), st'\<lparr>isInitialized := True\<rparr>, w3))))))"

text \<open>The \<open>try\<close> with its \<open>catch\<close> and \<open>finally\<close>.\<close>

definition initializeApp ::
  "'p Remote \<Rightarrow> 'p HomeState \<times> 'p World \<Rightarrow> 'p HomeState \<times> 'p World" where
  "initializeApp env sw =
     (case initializeApp_try env sw of
        (Inl err, st, w) \<Rightarrow>
          (st\<lparr>error := Some (message_or err ''Error initializing app''), loading := False\<rparr>, w)
      | (Inr u, st, w) \<Rightarrow> (st\<lparr>loading := False\<rparr>, w))"

subsection \<open>The filter and search effect\<close>

text \<open>
  The effect that runs when the category, the debounced query or \<open>isInitialized\<close> changes.
  In the \<open>then\<close> of the search, a throw while grouping lands in the \<open>catch\<close> of the chain.
\<close>

definition query_effect :: "fault \<Rightarrow> 'p HomeState \<times> 'p World \<Rightarrow> 'p HomeState \<times> 'p World" where
  "query_effect flt sw =
     (case sw of (st, w) \<Rightarrow>
        if isInitialized st then
          (if trim (debouncedSearchQuery st) \<noteq> [] then
             (case (case searchMenuItems flt (debouncedSearchQuery st) (database w) of
                      Inl e \<Rightarrow> Inl e
                    | Inr menuItems \<Rightarrow> to_sections menuItems) of
                Inr sectionData \<Rightarrow>
                  (st\<lparr>sections := sectionData, loading := False\<rparr>,
                   logged (SearchMenuItems (debouncedSearchQuery st)) w)
              | Inl err \<Rightarrow>
                  (st\<lparr>error := Some (message_or err ''Error searching menu''), loading := False\<rparr>,
                   logged (SearchMenuItems (debouncedSearchQuery st)) w))
           else loadMenuByCategory flt (selectedCategory st) None (st, w))
        else (st, w))"

text \<open>
  A later query: the user picks a category or a debounced query arrives, then the effect
  runs. \<open>run_queries\<close> is any number of them, each with the fault its database call meets.
\<close>

record Query =
  query_category :: string
  query_text :: string
  query_fault :: fault

definition run_query :: "Query \<Rightarrow> 'p HomeState \<times> 'p World \<Rightarrow> 'p HomeState \<times> 'p World" where
  "run_query q sw =
     (case sw of (st, w) \<Rightarrow>
        query_effect (query_fault q)
          (st\<lparr>selectedCategory := query_category q, searchQuery := query_text q,
              debouncedSearchQuery := query_text q\<rparr>, w))"

fun run_queries :: "Query list \<Rightarrow> 'p HomeState \<times> 'p World \<Rightarrow> 'p HomeState \<times> 'p World" where
  "run_queries [] sw = sw"
| "run_queries (q # qs) sw = run_queries qs (run_query q sw)"

section \<open>The words of the specification\<close>

text \<open>
  Ignoring case. Among the code points below 256 the letters that have a capital and a small
  form are the 26 ASCII letters and the 30 letters of the Latin-1 block from \<open>0xC0\<close> to
  \<open>0xDE\<close> (without the multiplication sign \<open>0xD7\<close>), whose small forms are
  \<open>0x20\<close> higher. Two characters are the same letter when they are equal or are the
  capital and the small form of one letter; two strings are equal ignoring case when they
  are so character by character; \<open>q\<close> is contained in \<open>s\<close> ignoring case when it
  equals, ignoring case, the \<open>length q\<close> characters of \<open>s\<close> that start at some position
  \<open>i\<close> from 0 to \<open>length s\<close>.
\<close>

definition latin1_case_pairs :: "(char \<times> char) list" where
  "latin1_case_pairs = zip
     [CHR 0xC0, CHR 0xC1, CHR 0xC2, CHR 0xC3, CHR 0xC4, CHR 0xC5, CHR 0xC6, CHR 0xC7,
      CHR 0xC8, CHR 0xC9, CHR 0xCA, CHR 0xCB, CHR 0xCC, CHR 0xCD, CHR 0xCE, CHR 0xCF,
      CHR 0xD0, CHR 0xD1, CHR 0xD2, CHR 0xD3, CHR 0xD4, CHR 0xD5, CHR 0xD6, CHR 0xD8,
      CHR 0xD9, CHR 0xDA, CHR 0xDB, CHR 0xDC, CHR 0xDD, CHR 0xDE]
     [CHR 0xE0, CHR 0xE1, CHR 0xE2, CHR 0xE3, CHR 0xE4, CHR 0xE5, CHR 0xE6, CHR 0xE7,
      CHR 0xE8, CHR 0xE9, CHR 0xEA, CHR 0xEB, CHR 0xEC, CHR 0xED, CHR 0xEE, CHR 0xEF,
      CHR 0xF0, CHR 0xF1, CHR 0xF2, CHR 0xF3, CHR 0xF4, CHR 0xF5, CHR 0xF6, CHR 0xF8,
      CHR 0xF9, CHR 0xFA, CHR 0xFB, CHR 0xFC, CHR 0xFD, CHR 0xFE]"

definition same_letter :: "char \<Rightarrow> char \<Rightarrow> bool" where
  "same_letter x y \<longleftrightarrow>
     x = y \<or> (x, y) \<in> set (ascii_case_pairs @ latin1_case_pairs) \<or>
     (y, x) \<in> set (ascii_case_pairs @ latin1_case_pairs)"

definition equal_ignoring_case :: "string \<Rightarrow> string \<Rightarrow> bool" where
  "equal_ignoring_case a b \<longleftrightarrow> list_all2 same_letter a b"

definition contains_ignoring_case :: "string \<Rightarrow> string \<Rightarrow> bool" where
  "contains_ignoring_case q s \<longleftrightarrow>
     (\<exists>i\<in>set [0..<Suc (length s)]. equal_ignoring_case q (take (length q) (drop i s)))"

text \<open>The same three notions when only the case of the 26 ASCII letters is ignored.\<close>

definition same_ascii_letter :: "char \<Rightarrow> char \<Rightarrow> bool" where
  "same_ascii_letter x y \<longleftrightarrow>
     x = y \<or> (x, y) \<in> set ascii_case_pairs \<or> (y, x) \<in> set ascii_case_pairs"

definition equal_ignoring_ascii_case :: "string \<Rightarrow> string \<Rightarrow> bool" where
  "equal_ignoring_ascii_case a b \<longleftrightarrow> list_all2 same_ascii_letter a b"

definition contains_ignoring_ascii_case :: "string \<Rightarrow> string \<Rightarrow> bool" where
  "contains_ignoring_ascii_case q s \<longleftrightarrow>
     (\<exists>i\<in>set [0..<Suc (length s)]. equal_ignoring_ascii_case q (take (length q) (drop i s)))"

text \<open>The two characters that \<open>LIKE\<close> reads as wild cards.\<close>

definition has_wildcard :: "string \<Rightarrow> bool" where
  "has_wildcard s \<longleftrightarrow> CHR ''%'' \<in> set s \<or> CHR ''_'' \<in> set s"

text \<open>
  A row stores an item when it has an \<open>id\<close>, agrees with the item on every other column,
  and has the item's \<open>id\<close> when the item supplies one.
\<close>

definition stored_as :: "'p MenuItem \<Rightarrow> 'p MenuItem \<Rightarrow> bool" where
  "stored_as item row \<longleftrightarrow>
     item_id row \<noteq> None \<and> row\<lparr>item_id := item_id item\<rparr> = item \<and>
     (item_id item = None \<or> item_id item = item_id row)"

text \<open>The distinct elements of a list, in the order of their first appearance.\<close>

definition first_seen :: "'a list \<Rightarrow> 'a list" where
  "first_seen xs = rev (remdups (rev xs))"

text \<open>
  A category is a plain key when it is not an array index and not the name of a property
  inherited from \<open>Object.prototype\<close>.
\<close>

definition plain_key :: "string \<Rightarrow> bool" where
  "plain_key k \<longleftrightarrow> \<not> is_array_index k \<and> k \<notin> set Object_prototype_keys"

text \<open>The object that grouping builds from plain keys.\<close>

definition groups_of :: "'p MenuItem list \<Rightarrow> 'p grouped" where
  "groups_of items =
     map (\<lambda>c. (c, filter (\<lambda>i. category i = c) items)) (first_seen (map category items))"

section \<open>Example data\<close>

text \<open>Three rows of a menu, prices in cents, and a database that holds them.\<close>

definition greek_salad :: "int MenuItem" where
  "greek_salad = \<lparr>item_id = Some 1, name = ''Greek Salad'', price = 1299,
     description = ''Feta and olives'', item_image = ''greekSalad.jpg'',
     category = ''starters''\<rparr>"

definition lemon_cake :: "int MenuItem" where
  "lemon_cake = \<lparr>item_id = Some 2, name = ''Lemon Cake'', price = 650,
     description = ''Ricotta cake'', item_image = ''lemonDessert.jpg'',
     category = ''desserts''\<rparr>"

definition pasta :: "int MenuItem" where
  "pasta = \<lparr>item_id = Some 3, name = ''Pasta'', price = 1899,
     description = ''Penne'', item_image = ''pasta.jpg'',
     category = ''mains''\<rparr>"

definition example_db :: "int Database" where
  "example_db = \<lparr>menuitems = Some [greek_salad, lemon_cake, pasta], sqlite_sequence = 3\<rparr>"

text \<open>
  Two items as the remote payload has them, without \<open>id\<close>; a database before the table
  exists; a remote source that answers with a given payload while no database call fails; a
  world with nothing called yet; and two rows with unusual categories.
\<close>

definition hummus :: "int MenuItem" where
  "hummus = \<lparr>item_id = None, name = ''Hummus'', price = 550,
     description = ''Chickpea dip'', item_image = ''hummus.jpg'', category = ''starters''\<rparr>"

definition baklava :: "int MenuItem" where
  "baklava = \<lparr>item_id = None, name = ''Baklava'', price = 450,
     description = ''Honey and nuts'', item_image = ''baklava.jpg'', category = ''desserts''\<rparr>"

definition empty_db :: "int Database" where
  "empty_db = \<lparr>menuitems = None, sqlite_sequence = 0\<rparr>"

definition remote_answers :: "int payload \<Rightarrow> int Remote" where
  "remote_answers p =
     \<lparr>create_fault = None, read_fault = None, fetch_result = Inr p, save_faults = no_fault\<rparr>"

definition world_of :: "int Database \<Rightarrow> int World" where
  "world_of db = \<lparr>database = db, calls = []\<rparr>"

definition numbered :: "int MenuItem" where
  "numbered = \<lparr>item_id = Some 4, name = ''Soup'', price = 700,
     description = ''Of the day'', item_image = ''soup.jpg'', category = ''1''\<rparr>"

definition odd_one :: "int MenuItem" where
  "odd_one = \<lparr>item_id = Some 5, name = ''Bread'', price = 300,
     description = ''Pita'', item_image = ''bread.jpg'', category = ''constructor''\<rparr>"

text \<open>
  Two rows with unusual text, and a database that holds them: one with letters of the
  Latin-1 block in its name and category, one with a NUL character in its name.
\<close>

definition pate :: "int MenuItem" where
  "pate = \<lparr>item_id = Some 6, name = [CHR ''P'', CHR 0xE2, CHR ''t'', CHR 0xE9], price = 990,
     description = ''Duck liver'', item_image = ''pate.jpg'',
     category = [CHR ''e'', CHR ''n'', CHR ''t'', CHR ''r'', CHR 0xE9, CHR ''e'', CHR ''s'']\<rparr>"

definition tea :: "int MenuItem" where
  "tea = \<lparr>item_id = Some 7,
     name = [CHR ''T'', CHR ''e'', CHR ''a'', CHR 0x00, CHR ''l'', CHR ''e'', CHR ''m'', CHR ''o'', CHR ''n''],
     price = 250, description = ''Mint'', item_image = ''tea.jpg'', category = ''drinks''\<rparr>"

definition odd_db :: "int Database" where
  "odd_db = \<lparr>menuitems = Some [pate, tea], sqlite_sequence = 7\<rparr>"

section \<open>Facts about trimming, case folding and LIKE\<close>

subsection \<open>trim is idempotent\<close>

lemma dropWhile_no_head: "zs = [] \<or> \<not> P (hd zs) \<Longrightarrow> dropWhile P zs = zs"
  by (cases zs) auto

lemma hd_rev_dropWhile_rev:
  assumes "dropWhile P (rev xs) \<noteq> []"
  shows "hd (rev (dropWhile P (rev xs))) = hd xs"
proof -
  have "rev xs = takeWhile P (rev xs) @ dropWhile P (rev xs)" by simp
  then have "last (rev xs) = last (dropWhile P (rev xs))"
    using assms by (metis last_appendR)
  moreover have "xs \<noteq> []" using assms by auto
  ultimately show ?thesis by (simp add: hd_rev last_rev)
qed

lemma rev_dropWhile_rev_no_head:
  assumes "a = [] \<or> \<not> P (hd a)"
  shows "rev (dropWhile P (rev a)) = [] \<or> \<not> P (hd (rev (dropWhile P (rev a))))"
proof (cases "dropWhile P (rev a) = []")
  case True
  then show ?thesis by (simp only: rev.simps simp_thms)
next
  case False
  then have "hd (rev (dropWhile P (rev a))) = hd a" by (rule hd_rev_dropWhile_rev)
  moreover have "a \<noteq> []" using False by (metis dropWhile.simps(1) rev.simps(1))
  ultimately show ?thesis using assms by metis
qed

lemma trim_idem: "trim (trim s) = trim s"
proof -
  define a where "a = dropWhile is_js_whitespace s"
  define b where "b = rev (dropWhile is_js_whitespace (rev a))"
  have "a = [] \<or> \<not> is_js_whitespace (hd a)"
    unfolding a_def by (metis hd_dropWhile)
  then have "b = [] \<or> \<not> is_js_whitespace (hd b)"
    unfolding b_def by (rule rev_dropWhile_rev_no_head)
  then have "dropWhile is_js_whitespace b = b" by (rule dropWhile_no_head)
  then have "rev (dropWhile is_js_whitespace (rev (dropWhile is_js_whitespace b))) = b"
    by (simp only: b_def rev_rev_ident dropWhile_idem)
  then show ?thesis
    unfolding trim_def a_def b_def .
qed

lemma trim_Nil: "trim [] = []"
  by (simp add: trim_def)

subsection \<open>LOWER and equality up to case\<close>

lemma fold_pairs_eq:
  fixes ps :: "('a \<times> 'a) list"
  assumes d1: "distinct (map fst ps)" and d2: "distinct (map snd ps)"
    and dj: "set (map fst ps) \<inter> set (map snd ps) = {}"
  defines "f \<equiv> \<lambda>x. case map_of ps x of Some l \<Rightarrow> l | None \<Rightarrow> x"
  shows "f x = f y \<longleftrightarrow> x = y \<or> (x, y) \<in> set ps \<or> (y, x) \<in> set ps"
proof -
  have in_ps: "(a, b) \<in> set ps \<longleftrightarrow> map_of ps a = Some b" for a b
    using d1 by (auto dest: map_of_SomeD intro: map_of_is_SomeI)
  have inj: "map_of ps a = Some c \<Longrightarrow> map_of ps b = Some c \<Longrightarrow> a = b" for a b c
  proof -
    assume "map_of ps a = Some c" "map_of ps b = Some c"
    then have m: "(a, c) \<in> set ps" "(b, c) \<in> set ps" by (auto dest: map_of_SomeD)
    have "inj_on snd (set ps)" using d2 by (simp add: distinct_map)
    then have "(a, c) = (b, c)" using m inj_onD [of snd "set ps" "(a, c)" "(b, c)"] by simp
    then show "a = b" by simp
  qed
  have nd: "map_of ps a = Some c \<Longrightarrow> map_of ps c = None" for a c
  proof -
    assume "map_of ps a = Some c"
    then have "(a, c) \<in> set ps" by (rule map_of_SomeD)
    then have "c \<in> set (map snd ps)" by force
    then have "c \<notin> set (map fst ps)" using dj by auto
    then show ?thesis by (simp add: map_of_eq_None_iff)
  qed
  show ?thesis
    unfolding f_def in_ps
    by (auto split: option.splits dest: inj nd)
qed


lemma case_pairs_distinct_fst: "distinct (map fst ascii_case_pairs)"
  by (simp add: ascii_case_pairs_def)

lemma case_pairs_distinct_snd: "distinct (map snd ascii_case_pairs)"
  by (simp add: ascii_case_pairs_def)

lemma case_pairs_disjoint: "set (map fst ascii_case_pairs) \<inter> set (map snd ascii_case_pairs) = {}"
  by (simp add: ascii_case_pairs_def)

lemma case_pairs_no_wildcard:
  "CHR ''%'' \<notin> set (map fst ascii_case_pairs) \<union> set (map snd ascii_case_pairs)"
  "CHR ''_'' \<notin> set (map fst ascii_case_pairs) \<union> set (map snd ascii_case_pairs)"
  "CHR 0x00 \<notin> set (map fst ascii_case_pairs) \<union> set (map snd ascii_case_pairs)"
  by (simp_all add: ascii_case_pairs_def)

lemma case_pairs_ascii:
  "\<forall>c\<in>set (map fst ascii_case_pairs) \<union> set (map snd ascii_case_pairs). (of_char c :: nat) < 128"
  by (simp add: ascii_case_pairs_def)

lemma sqlite_lower_char_eq_iff:
  "sqlite_lower_char x = sqlite_lower_char y \<longleftrightarrow> same_ascii_letter x y"
  unfolding sqlite_lower_char_def same_ascii_letter_def
  by (rule fold_pairs_eq[OF case_pairs_distinct_fst case_pairs_distinct_snd case_pairs_disjoint])

lemma LOWER_eq_iff: "LOWER a = LOWER b \<longleftrightarrow> equal_ignoring_ascii_case a b"
  unfolding LOWER_def equal_ignoring_ascii_case_def
proof (induction a arbitrary: b)
  case Nil
  then show ?case by auto
next
  case (Cons x a)
  then show ?case by (cases b) (simp_all add: sqlite_lower_char_eq_iff)
qed

lemma sqlite_lower_char_fixed:
  assumes "c \<notin> set (map fst ascii_case_pairs)"
  shows "sqlite_lower_char c = c"
proof -
  have "map_of ascii_case_pairs c = None" using assms by (simp only: map_of_eq_None_iff) simp
  then show ?thesis
    unfolding sqlite_lower_char_def by simp
qed

lemma sqlite_lower_char_range:
  "sqlite_lower_char c = c \<or> sqlite_lower_char c \<in> set (map snd ascii_case_pairs)"
proof (cases "map_of ascii_case_pairs c")
  case None
  then show ?thesis
    unfolding sqlite_lower_char_def by simp
next
  case (Some l)
  then have "(c, l) \<in> set ascii_case_pairs" by (rule map_of_SomeD)
  then have "l \<in> set (map snd ascii_case_pairs)" by force
  with Some show ?thesis
    unfolding sqlite_lower_char_def by simp
qed

lemma sqlite_lower_char_idem: "sqlite_lower_char (sqlite_lower_char c) = sqlite_lower_char c"
proof -
  consider "sqlite_lower_char c = c" | "sqlite_lower_char c \<in> set (map snd ascii_case_pairs)"
    using sqlite_lower_char_range[of c] by blast
  then show ?thesis
  proof cases
    case 1
    then show ?thesis by simp
  next
    case 2
    then have "sqlite_lower_char c \<notin> set (map fst ascii_case_pairs)"
      using case_pairs_disjoint by blast
    then show ?thesis by (rule sqlite_lower_char_fixed)
  qed
qed

lemma sqlite_lower_char_wildcard:
  assumes "w = CHR ''%'' \<or> w = CHR ''_'' \<or> w = CHR 0x00"
  shows "sqlite_lower_char c = w \<longleftrightarrow> c = w"
proof
  assume a: "sqlite_lower_char c = w"
  have "w \<notin> set (map snd ascii_case_pairs)" using assms case_pairs_no_wildcard by blast
  with a sqlite_lower_char_range[of c] show "c = w" by metis
next
  assume "c = w"
  moreover have "w \<notin> set (map fst ascii_case_pairs)" using assms case_pairs_no_wildcard by blast
  then have "sqlite_lower_char w = w" by (rule sqlite_lower_char_fixed)
  ultimately show "sqlite_lower_char c = w" by simp
qed


lemma LOWER_idem: "LOWER (LOWER s) = LOWER s"
  by (simp add: LOWER_def sqlite_lower_char_idem)

lemma wildcard_in_LOWER:
  assumes "w = CHR ''%'' \<or> w = CHR ''_'' \<or> w = CHR 0x00"
  shows "w \<in> set (LOWER s) \<longleftrightarrow> w \<in> set s"
proof (induction s)
  case Nil
  then show ?case by (simp add: LOWER_def)
next
  case (Cons c s)
  have "sqlite_lower_char c = w \<longleftrightarrow> c = w" using assms by (rule sqlite_lower_char_wildcard)
  then have "w = sqlite_lower_char c \<longleftrightarrow> w = c" by metis
  with Cons show ?case by (simp add: LOWER_def)
qed

lemma has_wildcard_LOWER: "has_wildcard (LOWER s) = has_wildcard s"
  by (simp add: has_wildcard_def wildcard_in_LOWER)

subsection \<open>LIKE with a literal pattern between two percent signs\<close>

lemma contains_ignoring_ascii_case_pos:
  "contains_ignoring_ascii_case q s \<longleftrightarrow>
     (\<exists>i\<le>length s. equal_ignoring_ascii_case q (take (length q) (drop i s)))"
proof -
  have "set [0..<Suc (length s)] = {i. i \<le> length s}" by auto
  then show ?thesis
    unfolding contains_ignoring_ascii_case_def by (simp only: Bex_def mem_Collect_eq)
qed

lemma patternCompare_percent_any: "patternCompare ''%'' s"
  by (induction s) auto

lemma patternCompare_literal_then_percent:
  "\<not> has_wildcard p \<Longrightarrow> patternCompare (p @ ''%'') s \<longleftrightarrow> LOWER p = LOWER (take (length p) s)"
proof (induction p arbitrary: s)
  case Nil
  then show ?case using patternCompare_percent_any by (simp add: LOWER_def)
next
  case (Cons a p)
  then show ?case
    by (cases s) (auto simp: has_wildcard_def LOWER_def)
qed

lemma patternCompare_percent_first:
  "patternCompare (CHR ''%'' # p) s \<longleftrightarrow> (\<exists>i\<le>length s. patternCompare p (drop i s))"
proof (induction s)
  case Nil
  then show ?case by simp
next
  case (Cons c s)
  have "(\<exists>i\<le>length (c # s). patternCompare p (drop i (c # s))) \<longleftrightarrow>
        patternCompare p (c # s) \<or> (\<exists>i\<le>length s. patternCompare p (drop i s))"
  proof
    assume "\<exists>i\<le>length (c # s). patternCompare p (drop i (c # s))"
    then obtain i where i: "i \<le> length (c # s)" "patternCompare p (drop i (c # s))" by blast
    show "patternCompare p (c # s) \<or> (\<exists>i\<le>length s. patternCompare p (drop i s))"
    proof (cases i)
      case 0
      with i show ?thesis by simp
    next
      case (Suc j)
      with i show ?thesis by auto
    qed
  next
    assume "patternCompare p (c # s) \<or> (\<exists>i\<le>length s. patternCompare p (drop i s))"
    then show "\<exists>i\<le>length (c # s). patternCompare p (drop i (c # s))"
    proof
      assume "patternCompare p (c # s)"
      then have "patternCompare p (drop 0 (c # s))" by simp
      then show ?thesis by blast
    next
      assume "\<exists>i\<le>length s. patternCompare p (drop i s)"
      then obtain i where "i \<le> length s" "patternCompare p (drop i s)" by blast
      then have "Suc i \<le> length (c # s)" "patternCompare p (drop (Suc i) (c # s))" by simp_all
      then show ?thesis by blast
    qed
  qed
  with Cons show ?case by simp
qed

lemma patternCompare_search_pattern:
  assumes "\<not> has_wildcard q"
  shows "patternCompare (LOWER (''%'' @ q @ ''%'')) (LOWER s) \<longleftrightarrow> contains_ignoring_ascii_case q s"
proof -
  have "sqlite_lower_char (CHR ''%'') = CHR ''%''" by (simp add: sqlite_lower_char_wildcard)
  then have pat: "LOWER (''%'' @ q @ ''%'') = CHR ''%'' # (LOWER q @ ''%'')"
    by (simp add: LOWER_def)
  have nw: "\<not> has_wildcard (LOWER q)" using assms by (simp add: has_wildcard_LOWER)
  have "patternCompare (CHR ''%'' # (LOWER q @ ''%'')) (LOWER s) \<longleftrightarrow>
        (\<exists>i\<le>length s. patternCompare (LOWER q @ ''%'') (drop i (LOWER s)))"
    by (simp only: patternCompare_percent_first) (simp add: LOWER_def)
  also have "\<dots> \<longleftrightarrow> (\<exists>i\<le>length s. LOWER q = LOWER (take (length q) (drop i s)))"
    by (simp only: patternCompare_literal_then_percent[OF nw] LOWER_idem)
      (simp add: LOWER_def take_map drop_map sqlite_lower_char_idem comp_def)
  also have "\<dots> \<longleftrightarrow> contains_ignoring_ascii_case q s"
    by (simp add: contains_ignoring_ascii_case_pos LOWER_eq_iff)
  finally show ?thesis by (simp only: pat)
qed

lemma contains_ignoring_ascii_case_sublist:
  "contains_ignoring_ascii_case q s \<longleftrightarrow> sublist (LOWER q) (LOWER s)"
proof
  assume "contains_ignoring_ascii_case q s"
  then obtain i where i: "i \<le> length s" "LOWER q = LOWER (take (length q) (drop i s))"
    by (auto simp: contains_ignoring_ascii_case_pos LOWER_eq_iff)
  have "LOWER s = LOWER (take i s) @ LOWER (take (length q) (drop i s)) @ LOWER (drop (length q) (drop i s))"
    unfolding LOWER_def by (simp only: map_append[symmetric] append_take_drop_id)
  with i(2) show "sublist (LOWER q) (LOWER s)" unfolding sublist_def by metis
next
  assume "sublist (LOWER q) (LOWER s)"
  then obtain ps ss where e: "LOWER s = ps @ LOWER q @ ss" unfolding sublist_def by blast
  have len: "length ps + length q + length ss = length s"
    using arg_cong[OF e, of length] by (simp add: LOWER_def)
  have "LOWER (take (length q) (drop (length ps) s)) = take (length q) (drop (length ps) (LOWER s))"
    by (simp add: LOWER_def take_map drop_map)
  also have "\<dots> = LOWER q"
  proof -
    have "length (LOWER q) = length q" by (simp add: LOWER_def)
    then show ?thesis unfolding e by simp
  qed
  finally have "LOWER q = LOWER (take (length q) (drop (length ps) s))" by simp
  moreover have "length ps \<le> length s" using len by simp
  ultimately show "contains_ignoring_ascii_case q s"
    unfolding contains_ignoring_ascii_case_pos LOWER_eq_iff[symmetric] by blast
qed

subsection \<open>NUL characters and the length of a pattern\<close>

lemma c_string_id: "CHR 0x00 \<notin> set s \<Longrightarrow> c_string s = s"
  by (auto simp: c_string_def takeWhile_eq_all_conv)

lemma sqlite_lower_char_NUL: "sqlite_lower_char c \<noteq> CHR 0x00 \<longleftrightarrow> c \<noteq> CHR 0x00"
  by (simp add: sqlite_lower_char_wildcard)

lemma c_string_LOWER: "c_string (LOWER s) = LOWER (c_string s)"
  by (simp add: c_string_def LOWER_def takeWhile_map comp_def sqlite_lower_char_NUL)

lemma sqlite_lower_char_ascii:
  "128 \<le> (of_char (sqlite_lower_char c) :: nat) \<longleftrightarrow> 128 \<le> (of_char c :: nat)"
proof (cases "map_of ascii_case_pairs c")
  case None
  then show ?thesis by (simp add: sqlite_lower_char_def)
next
  case (Some l)
  then have "(c, l) \<in> set ascii_case_pairs" by (rule map_of_SomeD)
  then have "c \<in> set (map fst ascii_case_pairs)" "l \<in> set (map snd ascii_case_pairs)"
    by force+
  then have "(of_char c :: nat) < 128" "(of_char l :: nat) < 128"
    using case_pairs_ascii by blast+
  then show ?thesis using Some by (simp add: sqlite_lower_char_def)
qed

lemma utf8_length_LOWER: "utf8_length (LOWER s) = utf8_length s"
  by (simp add: utf8_length_def LOWER_def filter_map comp_def sqlite_lower_char_ascii)

lemma utf8_length_search_pattern: "utf8_length (''%'' @ q @ ''%'') = utf8_length q + 2"
  by (simp add: utf8_length_def)

lemma like_search_pattern:
  assumes "\<not> has_wildcard q" and "CHR 0x00 \<notin> set q"
  shows "like (LOWER (''%'' @ q @ ''%'')) (LOWER s) \<longleftrightarrow>
         contains_ignoring_ascii_case q (c_string s)"
proof -
  have "CHR 0x00 \<notin> set (''%'' @ q @ ''%'')" using assms(2) by simp
  then have "CHR 0x00 \<notin> set (LOWER (''%'' @ q @ ''%''))"
    by (simp add: wildcard_in_LOWER)
  then have "c_string (LOWER (''%'' @ q @ ''%'')) = LOWER (''%'' @ q @ ''%'')"
    by (rule c_string_id)
  then show ?thesis
    unfolding like_def
    by (simp only: c_string_LOWER patternCompare_search_pattern [OF assms(1)])
qed
section \<open>Facts about the replacement of the table\<close>

lemma runAsync_insert_stores:
  assumes "runAsync_insert flt item db = Inr db'" and "menuitems db = Some rows"
  shows "\<exists>row. stored_as item row \<and> menuitems db' = Some (insort_key rowid row rows)"
proof (cases "item_id item")
  case None
  define k where "k = fold max (map rowid rows) (sqlite_sequence db) + 1"
  from None assms have "menuitems db' = Some (insort_key rowid (item\<lparr>item_id := Some k\<rparr>) rows)"
    by (auto simp: runAsync_insert_def Let_def k_def split: option.splits if_splits)
  moreover have "stored_as item (item\<lparr>item_id := Some k\<rparr>)"
    using None by (simp add: stored_as_def)
  ultimately show ?thesis by blast
next
  case (Some k)
  with assms have "menuitems db' = Some (insort_key rowid item rows)"
    by (auto simp: runAsync_insert_def split: option.splits if_splits)
  moreover have "stored_as item item" using Some by (simp add: stored_as_def)
  ultimately show ?thesis by blast
qed

lemma insert_items_stores:
  assumes "insert_items io n items db = Inr db'" and "menuitems db = Some rows"
  shows "\<exists>stored rows'. list_all2 stored_as items stored \<and> menuitems db' = Some rows' \<and>
           mset rows' = mset rows + mset stored"
  using assms
proof (induction items arbitrary: n db rows)
  case Nil
  then show ?case by simp
next
  case (Cons item items)
  from Cons.prems(1) obtain db1 where
    step: "runAsync_insert (at_insert io n) item db = Inr db1" and
    rest: "insert_items io (Suc n) items db1 = Inr db'"
    by (auto split: sum.splits)
  from runAsync_insert_stores [OF step Cons.prems(2)] obtain row where
    row: "stored_as item row" "menuitems db1 = Some (insort_key rowid row rows)" by blast
  from Cons.IH [OF rest row(2)] obtain stored rows' where
    ih: "list_all2 stored_as items stored" "menuitems db' = Some rows'"
      "mset rows' = mset (insort_key rowid row rows) + mset stored" by blast
  have "list_all2 stored_as (item # items) (row # stored)" using row(1) ih(1) by simp
  moreover have "mset rows' = mset rows + mset (row # stored)" using ih(3) by simp
  ultimately show ?case using ih(2) by blast
qed

lemma runAsync_insert_fresh:
  assumes "menuitems db = Some rows" and "item_id item = Some k" and "is_rowid k"
    and "k \<notin> set (map rowid rows)"
  shows "\<exists>db'. runAsync_insert None item db = Inr db' \<and>
           menuitems db' = Some (insort_key rowid item rows)"
  using assms by (simp add: runAsync_insert_def)

lemma insert_items_fresh:
  assumes "\<forall>i. at_insert io i = None" and "menuitems db = Some rows"
    and "\<forall>i\<in>set items. \<exists>k. item_id i = Some k \<and> is_rowid k"
    and "distinct (map item_id items)"
    and "\<forall>i\<in>set items. rowid i \<notin> set (map rowid rows)"
  shows "\<exists>db' rows'. insert_items io n items db = Inr db' \<and> menuitems db' = Some rows' \<and>
           mset rows' = mset rows + mset items"
  using assms(2-)
proof (induction items arbitrary: n db rows)
  case Nil
  then show ?case by simp
next
  case (Cons item items)
  from Cons.prems(2) obtain k where k: "item_id item = Some k" "is_rowid k" by auto
  then have rk: "rowid item = k" by (simp add: rowid_def)
  have "k \<notin> set (map rowid rows)" using Cons.prems(4) rk by auto
  from runAsync_insert_fresh [OF Cons.prems(1) k this] obtain db1 where
    db1: "runAsync_insert None item db = Inr db1"
      "menuitems db1 = Some (insort_key rowid item rows)" by blast
  have others: "\<forall>i\<in>set items. rowid i \<noteq> k"
  proof
    fix i assume i: "i \<in> set items"
    then obtain j where j: "item_id i = Some j" using Cons.prems(2) by auto
    have "item_id item \<notin> set (map item_id items)" using Cons.prems(3) by simp
    moreover have "item_id i \<in> set (map item_id items)" using i by simp
    ultimately have "item_id i \<noteq> item_id item" by metis
    then show "rowid i \<noteq> k" using j k by (simp add: rowid_def)
  qed
  have fresh: "\<forall>i\<in>set items. rowid i \<notin> set (map rowid (insort_key rowid item rows))"
    using Cons.prems(4) others rk by (auto simp: set_insort_key)
  from Cons.IH [OF db1(2) _ _ fresh, of "Suc n"] Cons.prems(2,3) obtain db' rows' where
    ih: "insert_items io (Suc n) items db1 = Inr db'" "menuitems db' = Some rows'"
      "mset rows' = mset (insort_key rowid item rows) + mset items" by auto
  have "insert_items io n (item # items) db = Inr db'"
    using db1(1) ih(1) assms(1) by simp
  moreover have "mset rows' = mset rows + mset (item # items)" using ih(3) by simp
  ultimately show ?case using ih(2) by blast
qed

lemma fold_max_bounded:
  fixes a :: int
  shows "\<forall>x\<in>set xs. x \<le> a \<Longrightarrow> fold max xs a = a"
  by (induction xs) (simp_all add: max_absorb1)

lemma runAsync_insert_auto:
  assumes "menuitems db = Some rows" and "item_id item = None"
    and "\<forall>r\<in>set rows. rowid r \<le> sqlite_sequence db"
    and "sqlite_sequence db < 9223372036854775807"
  shows "\<exists>db' rows'. runAsync_insert None item db = Inr db' \<and> menuitems db' = Some rows' \<and>
           (\<forall>r\<in>set rows'. rowid r \<le> sqlite_sequence db') \<and>
           sqlite_sequence db' = sqlite_sequence db + 1"
proof -
  have "fold max (map rowid rows) (sqlite_sequence db) = sqlite_sequence db"
    using assms(3) by (intro fold_max_bounded) simp
  then show ?thesis
    using assms
    by (auto simp: runAsync_insert_def Let_def set_insort_key rowid_def)
qed

lemma insert_items_auto:
  assumes "\<forall>i. at_insert io i = None" and "menuitems db = Some rows"
    and "\<forall>i\<in>set items. item_id i = None"
    and "\<forall>r\<in>set rows. rowid r \<le> sqlite_sequence db"
    and "sqlite_sequence db + int (length items) \<le> 9223372036854775807"
  shows "\<exists>db'. insert_items io n items db = Inr db'"
  using assms(2-)
proof (induction items arbitrary: n db rows)
  case Nil
  then show ?case by simp
next
  case (Cons item items)
  have "sqlite_sequence db < 9223372036854775807" using Cons.prems(4) by simp
  with Cons.prems obtain db1 rows1 where
    db1: "runAsync_insert None item db = Inr db1" "menuitems db1 = Some rows1"
      "\<forall>r\<in>set rows1. rowid r \<le> sqlite_sequence db1"
      "sqlite_sequence db1 = sqlite_sequence db + 1"
    using runAsync_insert_auto [of db rows item] by auto
  have "sqlite_sequence db1 + int (length items) \<le> 9223372036854775807"
    using db1(4) Cons.prems(4) by simp
  from Cons.IH [OF db1(2) _ db1(3) this, of "Suc n"] Cons.prems(2)
  obtain db' where "insert_items io (Suc n) items db1 = Inr db'" by auto
  then show ?case using db1(1) assms(1) by simp
qed

lemma saveMenuItems_failure:
  "fst (saveMenuItems io A db) = Inl e \<Longrightarrow> snd (saveMenuItems io A db) = db"
  by (auto simp: saveMenuItems_def withTransactionAsync_def rethrow_def
      split: option.splits sum.splits js_error.splits)

lemma saveMenuItems_success:
  assumes "saveMenuItems io (Items A) db = (Inr u, db')"
  shows "\<exists>d. runAsync_delete (at_delete io) db = Inr d \<and> insert_items io 0 A d = Inr db'"
  using assms
  by (auto simp: saveMenuItems_def withTransactionAsync_def rethrow_def for_of_insert_def
      split: option.splits sum.splits js_error.splits)

lemma runAsync_delete_result:
  "runAsync_delete flt db = Inr d \<Longrightarrow> menuitems d = Some []"
  by (auto simp: runAsync_delete_def split: option.splits)

lemma saveMenuItems_no_fault:
  assumes "menuitems db \<noteq> None"
    and "insert_items no_fault 0 A (db\<lparr>menuitems := Some []\<rparr>) = Inr db'"
  shows "saveMenuItems no_fault (Items A) db = (Inr (), db')"
  using assms
  by (auto simp: saveMenuItems_def withTransactionAsync_def rethrow_def runAsync_delete_def
      for_of_insert_def no_fault_def)

lemma saveMenuItems_not_iterable:
  "\<exists>msg. saveMenuItems io Not_iterable db =
     (Inl (Error (''Failed to save menu items: '' @ msg)), db)"
  by (auto simp: saveMenuItems_def withTransactionAsync_def rethrow_def for_of_insert_def
      TypeError_not_iterable_def split: option.splits sum.splits js_error.splits)

lemma getMenuItems_rows: "menuitems db = Some rows \<Longrightarrow> getMenuItems None db = Inr rows"
  by (simp add: getMenuItems_def getAllAsync_def rethrow_def select_all_def)

text \<open>
  The table during a save, once all the INSERTs have run, is the table that the save
  commits.
\<close>

lemma during_save_all:
  "during_save (length A) A db = Inr db' \<longleftrightarrow> saveMenuItems no_fault (Items A) db = (Inr (), db')"
  by (auto simp: during_save_def saveMenuItems_def withTransactionAsync_def rethrow_def
      for_of_insert_def no_fault_def split: option.splits sum.splits js_error.splits)

section \<open>Facts about grouping and about the home screen\<close>

subsection \<open>Grouping by plain keys\<close>

lemma first_seen_snoc:
  "first_seen (xs @ [x]) = (if x \<in> set xs then first_seen xs else first_seen xs @ [x])"
  by (simp add: first_seen_def)

lemma set_first_seen: "set (first_seen xs) = set xs"
  by (simp add: first_seen_def)

lemma distinct_first_seen: "distinct (first_seen xs)"
  by (simp add: first_seen_def)

lemma forEach_group_snoc:
  "forEach_group (xs @ [x]) g =
     (case forEach_group xs g of Inl e \<Rightarrow> Inl e | Inr g' \<Rightarrow> group_item x g')"
  by (induction xs arbitrary: g) (auto split: sum.splits)

lemma map_of_map_pairs:
  "map_of (map (\<lambda>c. (c, f c)) ks) c = (if c \<in> set ks then Some (f c) else None)"
  by (induction ks) auto

lemma map_of_groups_of:
  "map_of (groups_of items) c =
     (if c \<in> set (map category items) then Some (filter (\<lambda>i. category i = c) items) else None)"
  unfolding groups_of_def by (simp only: map_of_map_pairs set_first_seen)

lemma update_map_pairs:
  assumes "distinct ks" and "k \<in> set ks" and "f' k = v" and "\<And>c. c \<noteq> k \<Longrightarrow> f' c = f c"
  shows "AList.update k v (map (\<lambda>c. (c, f c)) ks) = map (\<lambda>c. (c, f' c)) ks"
  using assms(1,2)
proof (induction ks)
  case Nil
  then show ?case by simp
next
  case (Cons a ks)
  show ?case
  proof (cases "a = k")
    case True
    then have "k \<notin> set ks" using Cons.prems(1) by simp
    then have "map (\<lambda>c. (c, f c)) ks = map (\<lambda>c. (c, f' c)) ks"
      using assms(4) by (induction ks) auto
    then show ?thesis using True assms(3) by simp
  next
    case False
    then show ?thesis using Cons assms(4) by auto
  qed
qed

lemma update_append_absent:
  "k \<notin> set (map fst g) \<Longrightarrow> AList.update k v (g @ [(k, w)]) = g @ [(k, v)]"
  by (induction g) auto

lemma keys_groups_of: "map fst (groups_of items) = first_seen (map category items)"
  by (simp add: groups_of_def comp_def)

lemma group_item_plain:
  assumes "category x \<notin> set Object_prototype_keys"
  shows "group_item x (groups_of xs) = Inr (groups_of (xs @ [x]))"
proof (cases "category x \<in> set (map category xs)")
  case True
  let ?k = "category x"
  have get: "get_property (groups_of xs) ?k = Array (filter (\<lambda>i. category i = ?k) xs)"
    using True by (simp add: get_property_def map_of_groups_of)
  have fs: "first_seen (map category (xs @ [x])) = first_seen (map category xs)"
    using True by (simp add: first_seen_snoc)
  have "AList.update ?k (filter (\<lambda>i. category i = ?k) xs @ [x]) (groups_of xs) =
        groups_of (xs @ [x])"
    unfolding groups_of_def fs
    by (rule update_map_pairs) (use True in \<open>auto simp: set_first_seen distinct_first_seen\<close>)
  then show ?thesis using get by (simp add: group_item_def)
next
  case False
  let ?k = "category x"
  have get: "get_property (groups_of xs) ?k = Undefined"
    using False assms by (simp add: get_property_def map_of_groups_of)
  have get2: "get_property (groups_of xs @ [(?k, [])]) ?k = Array []"
    using False by (simp add: get_property_def map_of_groups_of map_add_def)
  have fs: "first_seen (map category (xs @ [x])) = first_seen (map category xs) @ [?k]"
    using False by (simp add: first_seen_snoc)
  have "AList.update ?k [x] (groups_of xs @ [(?k, [])]) = groups_of xs @ [(?k, [x])]"
    using False by (intro update_append_absent) (simp add: keys_groups_of set_first_seen)
  also have "\<dots> = groups_of (xs @ [x])"
  proof -
    have "category i \<noteq> ?k" if "i \<in> set xs" for i
      using that False image_eqI [of ?k category i "set xs"] by fastforce
    then have "filter (\<lambda>i. category i = ?k) xs = []"
      by (simp add: filter_empty_conv)
    moreover have "\<forall>c\<in>set (first_seen (map category xs)). ?k \<noteq> c"
      using False by (auto simp: set_first_seen)
    ultimately show ?thesis
      unfolding groups_of_def fs by simp
  qed
  finally show ?thesis using get get2 by (simp add: group_item_def)
qed

lemma forEach_group_plain:
  assumes "\<forall>i\<in>set items. category i \<notin> set Object_prototype_keys"
  shows "forEach_group items [] = Inr (groups_of items)"
  using assms
proof (induction items rule: rev_induct)
  case Nil
  then show ?case by (simp add: groups_of_def first_seen_def)
next
  case (snoc x xs)
  then show ?case by (simp add: forEach_group_snoc group_item_plain)
qed

lemma Object_keys_plain:
  assumes "\<forall>k\<in>set (map fst g). \<not> is_array_index k"
  shows "Object_keys g = map fst g"
proof -
  have "filter is_array_index (map fst g) = []" using assms by (simp add: filter_empty_conv)
  moreover have "filter (\<lambda>k. \<not> is_array_index k) (map fst g) = map fst g"
    using assms by (simp add: filter_id_conv)
  ultimately show ?thesis by (simp add: Object_keys_def)
qed

lemma to_sections_plain:
  assumes "\<forall>i\<in>set items. plain_key (category i)"
  shows "to_sections items =
     Inr (map (\<lambda>c. \<lparr>title = c, data = filter (\<lambda>i. category i = c) items\<rparr>)
            (first_seen (map category items)))"
proof (cases "items = []")
  case True
  then show ?thesis by (simp add: to_sections_def first_seen_def)
next
  case False
  have g: "forEach_group items [] = Inr (groups_of items)"
    using assms by (intro forEach_group_plain) (simp add: plain_key_def)
  have "\<forall>k\<in>set (map fst (groups_of items)). \<not> is_array_index k"
    unfolding keys_groups_of using assms by (auto simp: set_first_seen plain_key_def)
  then have ok: "Object_keys (groups_of items) = first_seen (map category items)"
    using keys_groups_of [of items] by (simp add: Object_keys_plain)
  have "(case get_property (groups_of items) c of
           Array arr \<Rightarrow> arr | Inherited \<Rightarrow> [] | Undefined \<Rightarrow> []) =
        filter (\<lambda>i. category i = c) items"
    if "c \<in> set (first_seen (map category items))" for c
    using that by (simp add: get_property_def map_of_groups_of set_first_seen)
  then show ?thesis
    using False g ok by (simp add: to_sections_def)
qed

subsection \<open>Initialization and queries\<close>

lemma createTable_ok: "createTable None db = (Inr (), create_table_if_not_exists db)"
  by (simp add: createTable_def execAsync_create_def rethrow_def)

lemma createTable_existing: "menuitems db = Some rows \<Longrightarrow> snd (createTable flt db) = db"
  by (auto simp: createTable_def execAsync_create_def create_table_if_not_exists_def
      split: option.splits)

lemma getMenuItems_empty:
  assumes "menuitems db = None \<or> menuitems db = Some []"
  shows "getMenuItems None (create_table_if_not_exists db) = Inr []"
  using assms
  by (auto simp: getMenuItems_def getAllAsync_def rethrow_def select_all_def
      create_table_if_not_exists_def)

lemma loadMenuByCategory_existing:
  "loadMenuByCategory flt cat (Some items) (st, w) =
     ((case to_sections items of
         Inr secs \<Rightarrow> st\<lparr>sections := secs, loading := False\<rparr>
       | Inl e \<Rightarrow> st\<lparr>error := Some (message_or e ''Error loading menu''), loading := False\<rparr>), w)"
  by (simp add: loadMenuByCategory_def split: sum.splits)

lemma query_effect_calls:
  "FetchMenu \<in> set (calls (snd (query_effect flt sw))) \<longleftrightarrow> FetchMenu \<in> set (calls (snd sw))"
  by (cases sw)
    (auto simp: query_effect_def loadMenuByCategory_def logged_def Let_def
      split: sum.splits if_splits)

lemma run_query_calls:
  "FetchMenu \<in> set (calls (snd (run_query q sw))) \<longleftrightarrow> FetchMenu \<in> set (calls (snd sw))"
  by (cases sw) (simp add: run_query_def query_effect_calls)

lemma run_queries_calls:
  "FetchMenu \<in> set (calls (snd (run_queries qs sw))) \<longleftrightarrow> FetchMenu \<in> set (calls (snd sw))"
  by (induction qs arbitrary: sw) (simp_all add: run_query_calls)

lemma initializeApp_nonempty:
  assumes "menuitems (database w) = Some rows" and "rows \<noteq> []"
  shows "snd (initializeApp env (st, w)) = w\<lparr>calls := calls w @ [CreateTable]\<rparr> \<or>
         snd (initializeApp env (st, w)) = w\<lparr>calls := calls w @ [CreateTable, GetMenuItems]\<rparr>"
proof -
  have db: "snd (createTable (create_fault env) (database w)) = database w"
    using assms(1) by (rule createTable_existing)
  show ?thesis
  proof (cases "createTable (create_fault env) (database w)")
    case (Pair r db1)
    then have db1: "db1 = database w" using db by simp
    show ?thesis
    proof (cases r)
      case (Inl e)
      then show ?thesis
        using Pair db1 by (simp add: initializeApp_def initializeApp_try_def logged_def)
    next
      case (Inr u)
      show ?thesis
      proof (cases "getMenuItems (read_fault env) (database w)")
        case (Inl e)
        then show ?thesis
          using Pair db1 Inr
          by (simp add: initializeApp_def initializeApp_try_def logged_def)
      next
        case (Inr fromDB)
        then have "fromDB = rows"
          using assms(1)
          by (auto simp: getMenuItems_def getAllAsync_def rethrow_def select_all_def
              split: option.splits js_error.splits)
        then show ?thesis
          using Pair db1 \<open>r = Inr u\<close> Inr assms(2)
          by (simp add: initializeApp_def initializeApp_try_def logged_def
              loadMenuByCategory_existing split: sum.splits)
      qed
    qed
  qed
qed

text \<open>
  A first run whose save returns: the calls end with the save, so the store is not read
  again, and the view is the grouping of the payload's array.
\<close>

lemma initializeApp_first_run:
  assumes "menuitems (database w) = None \<or> menuitems (database w) = Some []"
    and "create_fault env = None" and "read_fault env = None"
    and "fetch_result env = Inr (With_menu (Items menu))"
    and "fst (saveMenuItems (save_faults env) (Items menu)
           (create_table_if_not_exists (database w))) = Inr ()"
  shows "calls (snd (initializeApp env (st, w))) =
           calls w @ [CreateTable, GetMenuItems, FetchMenu, SaveMenuItems] \<and>
         fst (initializeApp env (st, w)) =
           (case to_sections menu of
              Inr secs \<Rightarrow> st\<lparr>sections := secs, isInitialized := True, loading := False\<rparr>
            | Inl e \<Rightarrow> st\<lparr>error := Some (message_or e ''Error loading menu''),
                          isInitialized := True, loading := False\<rparr>)"
proof -
  have r: "getMenuItems None (create_table_if_not_exists (database w)) = Inr []"
    using assms(1) by (rule getMenuItems_empty)
  obtain db' where s: "saveMenuItems (save_faults env) (Items menu)
      (create_table_if_not_exists (database w)) = (Inr (), db')"
    using assms(5) by (metis prod.collapse)
  show ?thesis
    using assms(2-4) r s
    by (auto simp: initializeApp_def initializeApp_try_def createTable_ok fetch_and_save_def
        fetchMenuFromAPI_def logged_def loadMenuByCategory_existing split: sum.splits)
qed

section \<open>The claims about the menu table\<close>

lemmas example_defs = example_db_def greek_salad_def lemon_cake_def pasta_def

text \<open>
  C8. \<open>createTable\<close> is idempotent. On every database, when the storage does not fail, a
  first call succeeds, a second call right after it succeeds too and changes nothing; and
  when the table already exists a call leaves the whole database, so every existing row, as
  it was, whether the call succeeds or throws.
\<close>

theorem createTable_idempotent:
  "fst (createTable None db) = Inr () \<and>
   createTable None (snd (createTable None db)) = (Inr (), snd (createTable None db)) \<and>
   (\<forall>rows. menuitems db = Some rows \<longrightarrow> snd (createTable flt db) = db)"
  by (auto simp: createTable_def execAsync_create_def create_table_if_not_exists_def rethrow_def
      split: option.splits)

theorem createTable_idempotent_witness:
  "menuitems example_db = Some [greek_salad, lemon_cake, pasta] \<and>
   snd (createTable (Some ''disk I/O error'') example_db) = example_db \<and>
   createTable None example_db = (Inr (), example_db)"
proof -
  have h: "menuitems example_db = Some [greek_salad, lemon_cake, pasta]"
    by (simp add: example_db_def)
  have "snd (createTable (Some ''disk I/O error'') example_db) = example_db"
    using createTable_idempotent [of example_db "Some ''disk I/O error''"] h by blast
  moreover have "createTable None example_db = (Inr (), example_db)"
    using createTable_idempotent [of example_db None] h by (metis prod.collapse)
  ultimately show ?thesis using h by blast
qed

text \<open>
  C4, as amended. On a database whose table holds \<open>rows\<close>, when the storage does not fail,
  \<open>filterByCategory\<close> returns: for \<open>all\<close>, every row, in ascending order of
  (category, name); for any other value \<open>c\<close>, exactly the rows whose category equals \<open>c\<close>
  when the case of the 26 ASCII letters is ignored, in ascending order of name, and the empty
  sequence, not an error, when no row has such a category.
\<close>

theorem filterByCategory_rows:
  assumes "menuitems db = Some rows"
  shows "\<exists>res. filterByCategory None c db = Inr res \<and>
     (if c = ''all''
      then mset res = mset rows \<and> sorted (map (\<lambda>r. (category r, name r)) res)
      else mset res = mset (filter (\<lambda>r. equal_ignoring_ascii_case (category r) c) rows) \<and>
           sorted (map name res) \<and>
           ((\<forall>r\<in>set rows. \<not> equal_ignoring_ascii_case (category r) c) \<longrightarrow> res = []))"
proof (cases "c = ''all''")
  case True
  then show ?thesis
    using assms
    by (simp add: filterByCategory_def getAllAsync_def rethrow_def
        select_order_by_category_name_def)
next
  case False
  have "filter (\<lambda>r. equal_ignoring_ascii_case (category r) c) rows = []"
    if "\<forall>r\<in>set rows. \<not> equal_ignoring_ascii_case (category r) c"
    using that by (simp add: filter_empty_conv)
  then show ?thesis
    using assms False
    by (simp add: filterByCategory_def getAllAsync_def rethrow_def
        select_where_category_def LOWER_eq_iff)
qed

theorem filterByCategory_rows_witness:
  "menuitems example_db = Some [greek_salad, lemon_cake, pasta] \<and>
   filterByCategory None ''MAINS'' example_db = Inr [pasta] \<and>
   filterByCategory None ''all'' example_db = Inr [lemon_cake, pasta, greek_salad] \<and>
   filterByCategory None ''drinks'' example_db = Inr []"
proof -
  have h: "menuitems example_db = Some [greek_salad, lemon_cake, pasta]"
    by (simp add: example_db_def)
  have f: "filter (\<lambda>r. equal_ignoring_ascii_case (category r) ''MAINS'')
             [greek_salad, lemon_cake, pasta] = [pasta]"
    by code_simp
  obtain res where res: "filterByCategory None ''MAINS'' example_db = Inr res"
    "mset res = mset (filter (\<lambda>r. equal_ignoring_ascii_case (category r) ''MAINS'')
       [greek_salad, lemon_cake, pasta])"
    using filterByCategory_rows [OF h, of "''MAINS''"] by auto
  from res(2) have "res = [pasta]" unfolding f by simp
  moreover have "filterByCategory None ''all'' example_db = Inr [lemon_cake, pasta, greek_salad]"
    by code_simp
  moreover have "filterByCategory None ''drinks'' example_db = Inr []"
    by code_simp
  ultimately show ?thesis using res(1) h by simp
qed

text \<open>
  C4 as stated fails. The table holds a row whose category is the French word for
  starters, written with the small e acute (\<open>0xE9\<close>); the same word in capitals, with
  the capital E acute (\<open>0xC9\<close>), equals that category ignoring case, and
  \<open>filterByCategory\<close> returns no row for it: \<open>LOWER\<close> folds the ASCII letters only.
\<close>

theorem filterByCategory_case_counterexample:
  "menuitems odd_db = Some [pate, tea] \<and>
   equal_ignoring_case (category pate)
     [CHR ''E'', CHR ''N'', CHR ''T'', CHR ''R'', CHR 0xC9, CHR ''E'', CHR ''S''] \<and>
   filterByCategory None
     [CHR ''E'', CHR ''N'', CHR ''T'', CHR ''R'', CHR 0xC9, CHR ''E'', CHR ''S''] odd_db = Inr []"
proof -
  have "menuitems odd_db = Some [pate, tea]" by (simp add: odd_db_def)
  moreover have "equal_ignoring_case (category pate)
     [CHR ''E'', CHR ''N'', CHR ''T'', CHR ''R'', CHR 0xC9, CHR ''E'', CHR ''S'']"
    by code_simp
  moreover have "filterByCategory None
     [CHR ''E'', CHR ''N'', CHR ''T'', CHR ''R'', CHR 0xC9, CHR ''E'', CHR ''S''] odd_db = Inr []"
    by code_simp
  ultimately show ?thesis by blast
qed

text \<open>
  A pattern of more than 50000 bytes makes the search fail on a table that has a row.
\<close>

lemma searchMenuItems_too_long:
  assumes "menuitems db = Some rows" and "rows \<noteq> []" and "trim q \<noteq> []"
    and "49998 < utf8_length (trim q)"
  shows "searchMenuItems None q db =
     Inl (Error ''Failed to search menu items: LIKE or GLOB pattern too complex'')"
proof -
  have "q \<noteq> []" using assms(3) by (auto simp: trim_Nil)
  then show ?thesis
    using assms
    by (simp add: searchMenuItems_def getAllAsync_def rethrow_def select_where_like_def
        pattern_too_complex_def SQLITE_MAX_LIKE_PATTERN_LENGTH_def utf8_length_LOWER
        utf8_length_search_pattern del: append.simps)
qed

lemma trim_replicate: "\<not> is_js_whitespace c \<Longrightarrow> trim (replicate n c) = replicate n c"
  by (simp add: trim_def)

lemma utf8_length_replicate:
  "(of_char c :: nat) < 128 \<Longrightarrow> utf8_length (replicate n c) = int n"
  by (simp add: utf8_length_def)

text \<open>
  C2, as amended. On a database whose table holds \<open>rows\<close>, when the storage does not fail,
  for every query \<open>q\<close> that is not blank and whose trimmed form has no percent sign, no
  underscore and no NUL character and takes at most 49998 bytes in UTF-8,
  \<open>searchMenuItems\<close> returns exactly the rows whose name or description, read up to its
  first NUL character if it has one, contains the trimmed query when the case of the 26
  ASCII letters is ignored, in ascending order of (category, name).
\<close>

theorem searchMenuItems_contains:
  assumes "menuitems db = Some rows" and "trim q \<noteq> []" and "\<not> has_wildcard (trim q)"
    and "CHR 0x00 \<notin> set (trim q)" and "utf8_length (trim q) \<le> 49998"
  shows "\<exists>res. searchMenuItems None q db = Inr res \<and>
     mset res = mset (filter (\<lambda>r. contains_ignoring_ascii_case (trim q) (c_string (name r)) \<or>
                                 contains_ignoring_ascii_case (trim q) (c_string (description r)))
                        rows) \<and>
     sorted (map (\<lambda>r. (category r, name r)) res)"
proof -
  have "q \<noteq> []" using assms(2) by (auto simp: trim_Nil)
  then show ?thesis
    using assms
    by (simp add: searchMenuItems_def getAllAsync_def rethrow_def select_where_like_def
        pattern_too_complex_def SQLITE_MAX_LIKE_PATTERN_LENGTH_def utf8_length_LOWER
        utf8_length_search_pattern like_search_pattern del: append.simps)
qed

theorem searchMenuItems_contains_witness:
  "menuitems example_db = Some [greek_salad, lemon_cake, pasta] \<and>
   trim ''  LEMON '' \<noteq> [] \<and> \<not> has_wildcard (trim ''  LEMON '') \<and>
   CHR 0x00 \<notin> set (trim ''  LEMON '') \<and> utf8_length (trim ''  LEMON '') \<le> 49998 \<and>
   searchMenuItems None ''  LEMON '' example_db = Inr [lemon_cake]"
proof -
  have h: "menuitems example_db = Some [greek_salad, lemon_cake, pasta]"
    by (simp add: example_db_def)
  have t: "trim ''  LEMON '' = ''LEMON''" by (simp add: trim_def is_js_whitespace_def)
  have h2: "trim ''  LEMON '' \<noteq> []" unfolding t by simp
  have h3: "\<not> has_wildcard (trim ''  LEMON '')" unfolding t by (simp add: has_wildcard_def)
  have h4: "CHR 0x00 \<notin> set (trim ''  LEMON '')" unfolding t by simp
  have h5: "utf8_length (trim ''  LEMON '') \<le> 49998" unfolding t by (simp add: utf8_length_def)
  have f: "filter (\<lambda>r. contains_ignoring_ascii_case ''LEMON'' (c_string (name r)) \<or>
                        contains_ignoring_ascii_case ''LEMON'' (c_string (description r)))
             [greek_salad, lemon_cake, pasta] = [lemon_cake]"
    by code_simp
  obtain res where res: "searchMenuItems None ''  LEMON '' example_db = Inr res"
    "mset res = mset (filter (\<lambda>r.
         contains_ignoring_ascii_case (trim ''  LEMON '') (c_string (name r)) \<or>
         contains_ignoring_ascii_case (trim ''  LEMON '') (c_string (description r)))
       [greek_salad, lemon_cake, pasta])"
    using searchMenuItems_contains [OF h h2 h3 h4 h5] by auto
  from res(2) have "res = [lemon_cake]" unfolding t f by simp
  with res(1) h h2 h3 h4 h5 show ?thesis by simp
qed

text \<open>
  C2 as stated fails in six ways, one for each change made to it.

  \<^item> The query \<open>a_t\<close> returns the row named Pasta, whose name and description do not
    contain \<open>a_t\<close>: the underscore stands for any one character.
  \<^item> The query \<open>lemon\<close> with a space in front returns the row named Lemon Cake, which
    contains \<open>lemon\<close> but not \<open>lemon\<close> after a space: the query is trimmed first.
  \<^item> The query \<open>P\<close>, A circumflex, \<open>T\<close>, E acute in capitals (\<open>0xC2\<close>,
    \<open>0xC9\<close>) returns nothing, although the name of the row written with the small
    letters (\<open>0xE2\<close>, \<open>0xE9\<close>) contains it ignoring case: only ASCII letters are
    folded.
  \<^item> The query \<open>a\<close>, NUL, \<open>zzz\<close> returns the row named Pasta, which does not contain
    it: the pattern ends at the NUL, and what is left asks for a text that ends in \<open>a\<close>.
  \<^item> The query \<open>lemon\<close> does not return the row whose name is \<open>Tea\<close>, NUL,
    \<open>lemon\<close>, which contains it: the name is read up to the NUL.
  \<^item> A query of 49999 letters \<open>a\<close> returns no rows but an error: its pattern has 50001
    bytes.
\<close>

theorem searchMenuItems_substring_counterexample:
  "searchMenuItems None ''a_t'' example_db = Inr [pasta] \<and>
   \<not> contains_ignoring_case ''a_t'' (name pasta) \<and>
   \<not> contains_ignoring_case ''a_t'' (description pasta) \<and>
   searchMenuItems None '' lemon'' example_db = Inr [lemon_cake] \<and>
   \<not> contains_ignoring_case '' lemon'' (name lemon_cake) \<and>
   \<not> contains_ignoring_case '' lemon'' (description lemon_cake) \<and>
   searchMenuItems None [CHR ''P'', CHR 0xC2, CHR ''T'', CHR 0xC9] odd_db = Inr [] \<and>
   contains_ignoring_case [CHR ''P'', CHR 0xC2, CHR ''T'', CHR 0xC9] (name pate) \<and>
   searchMenuItems None [CHR ''a'', CHR 0x00, CHR ''z'', CHR ''z'', CHR ''z''] example_db =
     Inr [pasta] \<and>
   \<not> contains_ignoring_case [CHR ''a'', CHR 0x00, CHR ''z'', CHR ''z'', CHR ''z''] (name pasta) \<and>
   \<not> contains_ignoring_case [CHR ''a'', CHR 0x00, CHR ''z'', CHR ''z'', CHR ''z'']
        (description pasta) \<and>
   searchMenuItems None ''lemon'' odd_db = Inr [] \<and>
   contains_ignoring_case ''lemon'' (name tea) \<and>
   searchMenuItems None (replicate 49999 (CHR ''a'')) example_db =
     Inl (Error ''Failed to search menu items: LIKE or GLOB pattern too complex'')"
proof -
  have "searchMenuItems None ''a_t'' example_db = Inr [pasta]"
    by code_simp
  moreover have "searchMenuItems None '' lemon'' example_db = Inr [lemon_cake]"
    by code_simp
  moreover have "\<not> contains_ignoring_case ''a_t'' (name pasta)"
    "\<not> contains_ignoring_case ''a_t'' (description pasta)"
    "\<not> contains_ignoring_case '' lemon'' (name lemon_cake)"
    "\<not> contains_ignoring_case '' lemon'' (description lemon_cake)"
    by code_simp+
  moreover have "searchMenuItems None [CHR ''P'', CHR 0xC2, CHR ''T'', CHR 0xC9] odd_db = Inr []"
    by code_simp
  moreover have "contains_ignoring_case [CHR ''P'', CHR 0xC2, CHR ''T'', CHR 0xC9] (name pate)"
    by code_simp
  moreover have
    "searchMenuItems None [CHR ''a'', CHR 0x00, CHR ''z'', CHR ''z'', CHR ''z''] example_db =
       Inr [pasta]"
    by code_simp
  moreover have
    "\<not> contains_ignoring_case [CHR ''a'', CHR 0x00, CHR ''z'', CHR ''z'', CHR ''z''] (name pasta)"
    "\<not> contains_ignoring_case [CHR ''a'', CHR 0x00, CHR ''z'', CHR ''z'', CHR ''z'']
          (description pasta)"
    by code_simp+
  moreover have "searchMenuItems None ''lemon'' odd_db = Inr []"
    by code_simp
  moreover have "contains_ignoring_case ''lemon'' (name tea)"
    by code_simp
  moreover have "searchMenuItems None (replicate 49999 (CHR ''a'')) example_db =
     Inl (Error ''Failed to search menu items: LIKE or GLOB pattern too complex'')"
  proof (rule searchMenuItems_too_long)
    show "menuitems example_db = Some [greek_salad, lemon_cake, pasta]"
      by (simp add: example_db_def)
    show "[greek_salad, lemon_cake, pasta] \<noteq> []" by simp
    have t: "trim (replicate 49999 (CHR ''a'')) = replicate 49999 (CHR ''a'')"
      by (rule trim_replicate) (simp add: is_js_whitespace_def)
    show "trim (replicate 49999 (CHR ''a'')) \<noteq> []" unfolding t by simp
    show "49998 < utf8_length (trim (replicate 49999 (CHR ''a'')))"
      unfolding t by (simp add: utf8_length_replicate)
  qed
  ultimately show ?thesis by blast
qed

text \<open>
  C5. For a query that is empty or white space only, \<open>searchMenuItems\<close> returns rows
  exactly when \<open>filterByCategory\<close> with \<open>all\<close> does, and the same rows; both return
  rows when the storage does not fail and the table exists.
\<close>

theorem blank_search_is_all:
  assumes "trim q = []"
  shows "(\<forall>rows. searchMenuItems flt q db = Inr rows \<longleftrightarrow>
                  filterByCategory flt ''all'' db = Inr rows) \<and>
         (flt = None \<and> menuitems db \<noteq> None \<longrightarrow> (\<exists>rows. searchMenuItems flt q db = Inr rows))"
  using assms
  by (auto simp: searchMenuItems_def filterByCategory_def getAllAsync_def rethrow_def
      select_order_by_category_name_def split: option.splits js_error.splits)

theorem blank_search_is_all_witness:
  "trim ''   '' = [] \<and> trim '''' = [] \<and>
   searchMenuItems None ''   '' example_db = Inr [lemon_cake, pasta, greek_salad] \<and>
   searchMenuItems None '''' example_db = Inr [lemon_cake, pasta, greek_salad] \<and>
   filterByCategory None ''all'' example_db = Inr [lemon_cake, pasta, greek_salad]"
proof -
  have h: "trim ''   '' = []" and h': "trim '''' = []"
    by (simp_all add: trim_def is_js_whitespace_def)
  have f: "filterByCategory None ''all'' example_db = Inr [lemon_cake, pasta, greek_salad]"
    by code_simp
  have "searchMenuItems None ''   '' example_db = Inr [lemon_cake, pasta, greek_salad]"
    using blank_search_is_all [OF h, of None example_db] f by blast
  moreover have "searchMenuItems None '''' example_db = Inr [lemon_cake, pasta, greek_salad]"
    using blank_search_is_all [OF h', of None example_db] f by blast
  ultimately show ?thesis using h h' f by blast
qed

text \<open>
  C9. For every query and every database, \<open>searchMenuItems\<close> returns for the query what
  it returns for the trimmed query, rows or error alike: white space around the query never
  changes the result.
\<close>

theorem searchMenuItems_trim: "searchMenuItems flt q db = searchMenuItems flt (trim q) db"
  unfolding searchMenuItems_def by (auto simp: trim_idem trim_Nil)

theorem searchMenuItems_trim_witness:
  "trim ''  LEMON '' = ''LEMON'' \<and>
   searchMenuItems None ''  LEMON '' example_db = searchMenuItems None ''LEMON'' example_db"
proof -
  have t: "trim ''  LEMON '' = ''LEMON''" by (simp add: trim_def is_js_whitespace_def)
  show ?thesis using searchMenuItems_trim [of None "''  LEMON ''" example_db] unfolding t by simp
qed

section \<open>The claim about the replacement of the table\<close>

text \<open>
  C1, as amended. \<open>saveMenuItems\<close> with an array of items is all or nothing once the call
  has ended. When it throws, at whichever statement, the database is exactly as before the
  call. When it returns, \<open>getMenuItems\<close> returns a row for every item of the sequence and
  nothing else: each row stores its item, with the item's own \<open>id\<close> when it supplies one.
  It returns whenever the storage does not fail, the table exists, and either every item
  supplies an \<open>id\<close>, the ids being distinct signed 64-bit integers (the rows are then
  exactly the items), or no item supplies one and the AUTOINCREMENT counter can still grow
  by the number of items. Nothing is said of a reader whose query runs while the call is in
  progress.
\<close>

theorem saveMenuItems_all_or_nothing:
  "(case saveMenuItems io (Items A) db of
      (Inl e, db') \<Rightarrow> db' = db
    | (Inr u, db') \<Rightarrow>
        (\<exists>rows stored. getMenuItems None db' = Inr rows \<and> mset rows = mset stored \<and>
           list_all2 stored_as A stored)) \<and>
   (menuitems db \<noteq> None \<and>
    (\<forall>i\<in>set A. \<exists>k. item_id i = Some k \<and> is_rowid k) \<and> distinct (map item_id A) \<longrightarrow>
      (\<exists>db' rows. saveMenuItems no_fault (Items A) db = (Inr (), db') \<and>
         getMenuItems None db' = Inr rows \<and> mset rows = mset A)) \<and>
   (menuitems db \<noteq> None \<and> (\<forall>i\<in>set A. item_id i = None) \<and>
    sqlite_sequence db + int (length A) \<le> 9223372036854775807 \<longrightarrow>
      (\<exists>db'. saveMenuItems no_fault (Items A) db = (Inr (), db')))"
proof (intro conjI impI)
  show "case saveMenuItems io (Items A) db of
      (Inl e, db') \<Rightarrow> db' = db
    | (Inr u, db') \<Rightarrow>
        (\<exists>rows stored. getMenuItems None db' = Inr rows \<and> mset rows = mset stored \<and>
           list_all2 stored_as A stored)"
  proof (cases "saveMenuItems io (Items A) db")
    case (Pair r db')
    show ?thesis
    proof (cases r)
      case (Inl e)
      then show ?thesis using Pair saveMenuItems_failure [of io "Items A" db e] by simp
    next
      case (Inr u)
      with Pair obtain d where d: "runAsync_delete (at_delete io) db = Inr d"
        "insert_items io 0 A d = Inr db'"
        using saveMenuItems_success by blast
      from insert_items_stores [OF d(2) runAsync_delete_result [OF d(1)]]
      obtain stored rows' where
        s: "list_all2 stored_as A stored" "menuitems db' = Some rows'" "mset rows' = mset stored"
        by auto
      then show ?thesis using Pair Inr getMenuItems_rows [OF s(2)] by auto
    qed
  qed
next
  assume a: "menuitems db \<noteq> None \<and>
    (\<forall>i\<in>set A. \<exists>k. item_id i = Some k \<and> is_rowid k) \<and> distinct (map item_id A)"
  have n: "\<forall>i. at_insert no_fault i = None" by (simp add: no_fault_def)
  have "menuitems (db\<lparr>menuitems := Some []\<rparr>) = Some []" by simp
  from insert_items_fresh [OF n this, of A 0] a obtain db' rows' where
    r: "insert_items no_fault 0 A (db\<lparr>menuitems := Some []\<rparr>) = Inr db'"
      "menuitems db' = Some rows'" "mset rows' = mset A" by auto
  then show "\<exists>db' rows. saveMenuItems no_fault (Items A) db = (Inr (), db') \<and>
         getMenuItems None db' = Inr rows \<and> mset rows = mset A"
    using saveMenuItems_no_fault [of db A db'] a getMenuItems_rows [OF r(2)] by auto
next
  assume a: "menuitems db \<noteq> None \<and> (\<forall>i\<in>set A. item_id i = None) \<and>
    sqlite_sequence db + int (length A) \<le> 9223372036854775807"
  have n: "\<forall>i. at_insert no_fault i = None" by (simp add: no_fault_def)
  have "menuitems (db\<lparr>menuitems := Some []\<rparr>) = Some []" by simp
  from insert_items_auto [OF n this, of A 0] a obtain db' where
    "insert_items no_fault 0 A (db\<lparr>menuitems := Some []\<rparr>) = Inr db'" by auto
  then show "\<exists>db'. saveMenuItems no_fault (Items A) db = (Inr (), db')"
    using saveMenuItems_no_fault [of db A db'] a by auto
qed

text \<open>
  The witness replaces the three rows of the example by two of them, then by two items
  without \<open>id\<close>, and then lets the second INSERT fail.
\<close>

theorem saveMenuItems_all_or_nothing_witness:
  "menuitems example_db \<noteq> None \<and>
   item_id pasta = Some 3 \<and> is_rowid 3 \<and> item_id greek_salad = Some 1 \<and> is_rowid 1 \<and>
   distinct (map item_id [pasta, greek_salad]) \<and>
   saveMenuItems no_fault (Items [pasta, greek_salad]) example_db =
     (Inr (), \<lparr>menuitems = Some [greek_salad, pasta], sqlite_sequence = 3\<rparr>) \<and>
   item_id hummus = None \<and> item_id baklava = None \<and>
   sqlite_sequence example_db + int (length [hummus, baklava]) \<le> 9223372036854775807 \<and>
   saveMenuItems no_fault (Items [hummus, baklava]) example_db =
     (Inr (), \<lparr>menuitems = Some [hummus\<lparr>item_id := Some 4\<rparr>, baklava\<lparr>item_id := Some 5\<rparr>],
               sqlite_sequence = 5\<rparr>) \<and>
   saveMenuItems (no_fault\<lparr>at_insert := (\<lambda>i. if i = 1 then Some ''disk I/O error'' else None)\<rparr>)
       (Items [pasta, greek_salad]) example_db =
     (Inl (Error ''Failed to save menu items: disk I/O error''), example_db)"
proof -
  let ?io = "no_fault\<lparr>at_insert := (\<lambda>i. if i = 1 then Some ''disk I/O error'' else None)\<rparr>"
  have h: "menuitems example_db \<noteq> None" "item_id pasta = Some 3" "is_rowid 3"
    "item_id greek_salad = Some 1" "is_rowid 1"
    "distinct (map item_id [pasta, greek_salad])" "item_id hummus = None" "item_id baklava = None"
    "sqlite_sequence example_db + int (length [hummus, baklava]) \<le> 9223372036854775807"
    by (simp_all add: example_defs hummus_def baklava_def is_rowid_def)
  have a: "saveMenuItems no_fault (Items [pasta, greek_salad]) example_db =
     (Inr (), \<lparr>menuitems = Some [greek_salad, pasta], sqlite_sequence = 3\<rparr>)"
    by code_simp
  have b: "saveMenuItems no_fault (Items [hummus, baklava]) example_db =
     (Inr (), \<lparr>menuitems = Some [hummus\<lparr>item_id := Some 4\<rparr>, baklava\<lparr>item_id := Some 5\<rparr>],
               sqlite_sequence = 5\<rparr>)"
    by code_simp
  have f: "fst (saveMenuItems ?io (Items [pasta, greek_salad]) example_db) =
     Inl (Error ''Failed to save menu items: disk I/O error'')"
    by code_simp
  have "snd (saveMenuItems ?io (Items [pasta, greek_salad]) example_db) = example_db"
    using saveMenuItems_all_or_nothing [where io = ?io and A = "[pasta, greek_salad]"
        and db = example_db] f
    by (cases "saveMenuItems ?io (Items [pasta, greek_salad]) example_db") auto
  with f have c: "saveMenuItems ?io (Items [pasta, greek_salad]) example_db =
     (Inl (Error ''Failed to save menu items: disk I/O error''), example_db)"
    by (metis prod.collapse)
  show ?thesis using h a b c by simp
qed

text \<open>
  C1 as stated fails for a reader on the same connection. While
  \<open>saveMenuItems([pasta, greek_salad])\<close> is running on the example, a \<open>getMenuItems\<close>
  whose SELECT runs after the first INSERT returns the one row Pasta: neither the three rows
  that were there before the call nor the two rows that are there after it.
\<close>

theorem saveMenuItems_reader_counterexample:
  "getMenuItems None example_db = Inr [greek_salad, lemon_cake, pasta] \<and>
   getMenuItems_during 1 [pasta, greek_salad] example_db = Inr [pasta] \<and>
   getMenuItems None (snd (saveMenuItems no_fault (Items [pasta, greek_salad]) example_db)) =
     Inr [greek_salad, pasta]"
proof -
  have "getMenuItems None example_db = Inr [greek_salad, lemon_cake, pasta]"
    by code_simp
  moreover have "getMenuItems_during 1 [pasta, greek_salad] example_db = Inr [pasta]"
    by code_simp
  moreover have
    "getMenuItems None (snd (saveMenuItems no_fault (Items [pasta, greek_salad]) example_db)) =
       Inr [greek_salad, pasta]"
    by code_simp
  ultimately show ?thesis by blast
qed

section \<open>The claims about the home screen\<close>

text \<open>
  C7, where the code departs from it. The claim is that grouping makes one section for each
  category, in the order in which the categories first appear, for every result sequence.
  The row Pasta (category \<open>mains\<close>) followed by a row of category \<open>constructor\<close>: the
  lookup \<open>grouped[category]\<close> finds the function that every object inherits under that
  name, so no section is created, and \<open>push\<close> throws. The row Pasta followed by a row of
  category \<open>1\<close>: both sections are made, and \<open>Object.keys\<close> lists the one titled \<open>1\<close>
  first, although \<open>mains\<close> was seen first.
\<close>

theorem to_sections_inherited_key_throws:
  "to_sections [pasta, odd_one] = Inl TypeError_push \<and>
   category odd_one = ''constructor'' \<and>
   to_sections [pasta, numbered] =
     Inr [\<lparr>title = ''1'', data = [numbered]\<rparr>, \<lparr>title = ''mains'', data = [pasta]\<rparr>] \<and>
   first_seen (map category [pasta, numbered]) = [''mains'', ''1'']"
proof -
  have "to_sections [pasta, odd_one] = Inl TypeError_push"
    by code_simp
  moreover have "category odd_one = ''constructor''"
    by (simp add: odd_one_def)
  moreover have "to_sections [pasta, numbered] =
     Inr [\<lparr>title = ''1'', data = [numbered]\<rparr>, \<lparr>title = ''mains'', data = [pasta]\<rparr>]"
    by code_simp
  moreover have "first_seen (map category [pasta, numbered]) = [''mains'', ''1'']"
    by code_simp
  ultimately show ?thesis by simp
qed

text \<open>
  C3, as amended. The store is empty and the calls that create and read the table do not
  fail. When the remote source answers with a payload that is falsy, or whose \<open>menu\<close> is
  missing or falsy, initialization writes nothing (the store is only given its empty table,
  and \<open>saveMenuItems\<close> is not called) and raises no error: the error is left as it was,
  the sections are empty and the screen is initialized. When \<open>menu\<close> is truthy and cannot
  be iterated, \<open>saveMenuItems\<close> is called and throws, whatever the storage does; the
  store is only given its empty table, the error shown starts with
  \<open>Failed to save menu items\<close>, and the screen is not initialized.
\<close>

theorem bootstrap_without_menu:
  assumes "menuitems (database w) = None \<or> menuitems (database w) = Some []"
    and "create_fault env = None" and "read_fault env = None"
  shows "(fetch_result env = Inr Null \<or> fetch_result env = Inr Without_menu \<longrightarrow>
            initializeApp env (st, w) =
              (st\<lparr>sections := [], isInitialized := True, loading := False\<rparr>,
               w\<lparr>database := create_table_if_not_exists (database w),
                 calls := calls w @ [CreateTable, GetMenuItems, FetchMenu]\<rparr>)) \<and>
         (fetch_result env = Inr (With_menu Not_iterable) \<longrightarrow>
            (\<exists>msg. initializeApp env (st, w) =
              (st\<lparr>error := Some (''Failed to save menu items: '' @ msg), loading := False\<rparr>,
               w\<lparr>database := create_table_if_not_exists (database w),
                 calls := calls w @ [CreateTable, GetMenuItems, FetchMenu, SaveMenuItems]\<rparr>)))"
proof (intro conjI impI)
  have r: "getMenuItems None (create_table_if_not_exists (database w)) = Inr []"
    using assms(1) by (rule getMenuItems_empty)
  have s: "to_sections ([] :: 'a MenuItem list) = Inr []" by (simp add: to_sections_def)
  {
    assume "fetch_result env = Inr Null \<or> fetch_result env = Inr Without_menu"
    then show "initializeApp env (st, w) =
              (st\<lparr>sections := [], isInitialized := True, loading := False\<rparr>,
               w\<lparr>database := create_table_if_not_exists (database w),
                 calls := calls w @ [CreateTable, GetMenuItems, FetchMenu]\<rparr>)"
      using assms(2,3) r
      by (auto simp: initializeApp_def initializeApp_try_def createTable_ok fetch_and_save_def
          fetchMenuFromAPI_def logged_def loadMenuByCategory_existing s)
  }
  {
    assume f: "fetch_result env = Inr (With_menu Not_iterable)"
    obtain msg where m: "saveMenuItems (save_faults env) Not_iterable
        (create_table_if_not_exists (database w)) =
        (Inl (Error (''Failed to save menu items: '' @ msg)),
         create_table_if_not_exists (database w))"
      using saveMenuItems_not_iterable by blast
    have "initializeApp env (st, w) =
              (st\<lparr>error := Some (''Failed to save menu items: '' @ msg), loading := False\<rparr>,
               w\<lparr>database := create_table_if_not_exists (database w),
                 calls := calls w @ [CreateTable, GetMenuItems, FetchMenu, SaveMenuItems]\<rparr>)"
      using assms(2,3) r f m
      by (simp add: initializeApp_def initializeApp_try_def createTable_ok fetch_and_save_def
          fetchMenuFromAPI_def logged_def message_or_def)
    then show "\<exists>msg. initializeApp env (st, w) =
              (st\<lparr>error := Some (''Failed to save menu items: '' @ msg), loading := False\<rparr>,
               w\<lparr>database := create_table_if_not_exists (database w),
                 calls := calls w @ [CreateTable, GetMenuItems, FetchMenu, SaveMenuItems]\<rparr>)"
      by blast
  }
qed

text \<open>
  The witness is a first run, before the table exists, with a payload that has no \<open>menu\<close>,
  and one with a payload whose \<open>menu\<close> cannot be iterated.
\<close>

theorem bootstrap_without_menu_witness:
  "menuitems (database (world_of empty_db)) = None \<and>
   create_fault (remote_answers Without_menu) = None \<and>
   read_fault (remote_answers Without_menu) = None \<and>
   fetch_result (remote_answers Without_menu) = Inr Without_menu \<and>
   initializeApp (remote_answers Without_menu) (initial_state, world_of empty_db) =
     (initial_state\<lparr>isInitialized := True, loading := False\<rparr>,
      \<lparr>database = \<lparr>menuitems = Some [], sqlite_sequence = 0\<rparr>,
        calls = [CreateTable, GetMenuItems, FetchMenu]\<rparr>) \<and>
   fetch_result (remote_answers (With_menu Not_iterable)) = Inr (With_menu Not_iterable) \<and>
   initializeApp (remote_answers (With_menu Not_iterable)) (initial_state, world_of empty_db) =
     (initial_state\<lparr>error := Some ''Failed to save menu items: menuItems is not iterable'',
                    loading := False\<rparr>,
      \<lparr>database = \<lparr>menuitems = Some [], sqlite_sequence = 0\<rparr>,
        calls = [CreateTable, GetMenuItems, FetchMenu, SaveMenuItems]\<rparr>)"
proof -
  have h: "menuitems (database (world_of empty_db)) = None \<or>
           menuitems (database (world_of empty_db)) = Some []"
    "create_fault (remote_answers Without_menu) = None"
    "read_fault (remote_answers Without_menu) = None"
    by (simp_all add: world_of_def empty_db_def remote_answers_def)
  have f: "fetch_result (remote_answers Without_menu) = Inr Without_menu"
    "fetch_result (remote_answers (With_menu Not_iterable)) = Inr (With_menu Not_iterable)"
    by (simp_all add: remote_answers_def)
  have a: "initializeApp (remote_answers Without_menu) (initial_state, world_of empty_db) =
     (initial_state\<lparr>isInitialized := True, loading := False\<rparr>,
      \<lparr>database = \<lparr>menuitems = Some [], sqlite_sequence = 0\<rparr>,
        calls = [CreateTable, GetMenuItems, FetchMenu]\<rparr>)"
    using bootstrap_without_menu [OF h, of initial_state] f(1)
    by (simp add: world_of_def empty_db_def create_table_if_not_exists_def initial_state_def)
  have b: "initializeApp (remote_answers (With_menu Not_iterable))
       (initial_state, world_of empty_db) =
     (initial_state\<lparr>error := Some ''Failed to save menu items: menuItems is not iterable'',
                    loading := False\<rparr>,
      \<lparr>database = \<lparr>menuitems = Some [], sqlite_sequence = 0\<rparr>,
        calls = [CreateTable, GetMenuItems, FetchMenu, SaveMenuItems]\<rparr>)"
    by code_simp
  have "menuitems (database (world_of empty_db)) = None"
    by (simp add: world_of_def empty_db_def)
  then show ?thesis using h(2,3) f a b by simp
qed

text \<open>
  C3 as stated fails: on a first run whose payload has no \<open>menu\<close>, initialization ends
  with no error set and the screen initialized.
\<close>

theorem bootstrap_without_menu_counterexample:
  "error (fst (initializeApp (remote_answers Without_menu) (initial_state, world_of empty_db))) = None \<and>
   isInitialized (fst (initializeApp (remote_answers Without_menu) (initial_state, world_of empty_db)))"
  by code_simp

text \<open>
  C6. When the store holds at least one row at activation, initialization never calls the
  remote source, whatever it would answer and whichever database call fails, and neither
  does any later query: the fetch is absent from the calls after initialization and any
  number of queries. Initialization leaves the store as it was; when no database call fails
  it makes exactly two calls, the table creation and the read, and the screen is
  initialized.
\<close>

theorem nonempty_store_never_fetches:
  assumes "menuitems (database w) = Some rows" and "rows \<noteq> []"
    and "FetchMenu \<notin> set (calls w)"
  shows "FetchMenu \<notin> set (calls (snd (run_queries qs (initializeApp env (st, w))))) \<and>
         database (snd (initializeApp env (st, w))) = database w \<and>
         (create_fault env = None \<and> read_fault env = None \<longrightarrow>
            calls (snd (initializeApp env (st, w))) = calls w @ [CreateTable, GetMenuItems] \<and>
            isInitialized (fst (initializeApp env (st, w))))"
proof (intro conjI impI)
  show "FetchMenu \<notin> set (calls (snd (run_queries qs (initializeApp env (st, w)))))"
    using initializeApp_nonempty [OF assms(1,2), of env st] assms(3)
    by (auto simp: run_queries_calls)
  show "database (snd (initializeApp env (st, w))) = database w"
    using initializeApp_nonempty [OF assms(1,2), of env st] by auto
next
  assume a: "create_fault env = None \<and> read_fault env = None"
  have g: "getMenuItems None (database w) = Inr rows"
    using assms(1) by (rule getMenuItems_rows)
  have c: "create_table_if_not_exists (database w) = database w"
    using assms(1) by (simp add: create_table_if_not_exists_def)
  show "calls (snd (initializeApp env (st, w))) = calls w @ [CreateTable, GetMenuItems]"
    using a g c assms(2)
    by (simp add: initializeApp_def initializeApp_try_def createTable_ok logged_def
        loadMenuByCategory_existing split: sum.splits)
  show "isInitialized (fst (initializeApp env (st, w)))"
    using a g c assms(2)
    by (simp add: initializeApp_def initializeApp_try_def createTable_ok logged_def
        loadMenuByCategory_existing split: sum.splits)
qed


theorem nonempty_store_never_fetches_witness:
  "menuitems (database (world_of example_db)) = Some [greek_salad, lemon_cake, pasta] \<and>
   [greek_salad, lemon_cake, pasta] \<noteq> [] \<and>
   FetchMenu \<notin> set (calls (world_of example_db)) \<and>
   create_fault (remote_answers Null) = None \<and> read_fault (remote_answers Null) = None \<and>
   FetchMenu \<notin> set (calls (snd (run_queries
      [\<lparr>query_category = ''mains'', query_text = '''', query_fault = None\<rparr>,
       \<lparr>query_category = ''all'', query_text = ''lemon'', query_fault = None\<rparr>]
      (initializeApp (remote_answers Null) (initial_state, world_of example_db))))) \<and>
   calls (snd (initializeApp (remote_answers Null) (initial_state, world_of example_db))) =
     [CreateTable, GetMenuItems]"
proof -
  have h: "menuitems (database (world_of example_db)) = Some [greek_salad, lemon_cake, pasta]"
    "[greek_salad, lemon_cake, pasta] \<noteq> []"
    "FetchMenu \<notin> set (calls (world_of example_db))"
    by (simp_all add: world_of_def example_db_def)
  have e: "create_fault (remote_answers Null) = None" "read_fault (remote_answers Null) = None"
    by (simp_all add: remote_answers_def)
  let ?qs = "[\<lparr>query_category = ''mains'', query_text = '''', query_fault = None\<rparr>,
       \<lparr>query_category = ''all'', query_text = ''lemon'', query_fault = None\<rparr>]"
  note t = nonempty_store_never_fetches [OF h, of ?qs "remote_answers Null" initial_state]
  have q: "FetchMenu \<notin> set (calls (snd (run_queries ?qs
      (initializeApp (remote_answers Null) (initial_state, world_of example_db)))))"
    using t by blast
  have "calls (snd (initializeApp (remote_answers Null) (initial_state, world_of example_db))) =
     calls (world_of example_db) @ [CreateTable, GetMenuItems]"
    using t e by blast
  then have c: "calls (snd (initializeApp (remote_answers Null) (initial_state, world_of example_db))) =
     [CreateTable, GetMenuItems]"
    by (simp add: world_of_def)
  show ?thesis using h e q c by blast
qed

text \<open>
  C10, where the code departs from it. The claim is that on a first run the sections of the
  first view come in the order of the payload. A first run, before the table exists, with
  the payload Pasta (category \<open>mains\<close>), Soup (category \<open>1\<close>): the save returns and
  nothing is called after it, the view is built from the payload's array, and its sections
  are \<open>1\<close>, then \<open>mains\<close>, while the payload has \<open>mains\<close> first.
\<close>

theorem first_run_sections_out_of_payload_order:
  "initializeApp (remote_answers (With_menu (Items [pasta, numbered])))
       (initial_state, world_of empty_db) =
     (initial_state\<lparr>sections := [\<lparr>title = ''1'', data = [numbered]\<rparr>,
                                   \<lparr>title = ''mains'', data = [pasta]\<rparr>],
                    isInitialized := True, loading := False\<rparr>,
      \<lparr>database = \<lparr>menuitems = Some [pasta, numbered], sqlite_sequence = 4\<rparr>,
        calls = [CreateTable, GetMenuItems, FetchMenu, SaveMenuItems]\<rparr>) \<and>
   map category [pasta, numbered] = [''mains'', ''1'']"
proof -
  have "initializeApp (remote_answers (With_menu (Items [pasta, numbered])))
       (initial_state, world_of empty_db) =
     (initial_state\<lparr>sections := [\<lparr>title = ''1'', data = [numbered]\<rparr>,
                                   \<lparr>title = ''mains'', data = [pasta]\<rparr>],
                    isInitialized := True, loading := False\<rparr>,
      \<lparr>database = \<lparr>menuitems = Some [pasta, numbered], sqlite_sequence = 4\<rparr>,
        calls = [CreateTable, GetMenuItems, FetchMenu, SaveMenuItems]\<rparr>)"
    by code_simp
  moreover have "map category [pasta, numbered] = [''mains'', ''1'']"
    by (simp add: pasta_def numbered_def)
  ultimately show ?thesis by simp
qed


end
